theory Spec2Isabelle
  imports Main "HOL-Library.AList" "HOL-Library.Sublist"
begin

section \<open>The TypeScript module parser of react-native-codegen\<close>

text \<open>
  A shallow embedding of
  \<^verbatim>\<open>packages/react-native-codegen/src/parsers/typescript/modules/index.js\<close>:
  \<^verbatim>\<open>translateArrayTypeAnnotation\<close>, \<^verbatim>\<open>translateTypeAnnotation\<close>,
  \<^verbatim>\<open>translateFunctionTypeAnnotation\<close>, \<^verbatim>\<open>buildPropertySchema\<close>,
  \<^verbatim>\<open>isModuleInterface\<close> and \<^verbatim>\<open>buildModuleSchema\<close>.

  Exceptions are values (\<open>Throws\<close>); the two pieces of mutable state the functions share,
  the alias map of the property being translated and the list of captured errors, are
  passed in and returned. The translator recurses through the type declarations of the
  file, which may be cyclic, so it carries fuel and answers \<open>None\<close> when the fuel is
  spent.
\<close>

subsection \<open>The syntax tree\<close>

text \<open>
  Only the fields the module reads are kept. A field that may be missing in the tree
  (\<^verbatim>\<open>typeAnnotation\<close>, \<^verbatim>\<open>typeParameters\<close>, \<^verbatim>\<open>initializer\<close>) is an \<open>option\<close>.
  \<open>TSLiteralType t\<close> is a node with a \<^verbatim>\<open>literal\<close> field whose \<^verbatim>\<open>type\<close> is \<open>t\<close>;
  \<open>TSMethodSignatureNode\<close> is a method signature handed over as a value (as
  \<^verbatim>\<open>buildPropertySchema\<close> does); \<open>TSOtherType t\<close> is any other node, of type \<open>t\<close>.
\<close>

datatype tsnode =
    TSArrayType tsnode
  | TSTypeOperator string tsnode
  | TSTypeReference string "tsnode list option"
  | TSTypeLiteral "tsmember list"
  | TSBooleanKeyword
  | TSNumberKeyword
  | TSVoidKeyword
  | TSStringKeyword
  | TSFunctionType "tsparam list" "tsnode option"
  | TSUnionType "tsnode list"
  | TSUnknownKeyword
  | TSNullKeyword
  | TSUndefinedKeyword
  | TSLiteralType string
  | TSMethodSignatureNode "tsparam list" "tsnode option"
  | TSOtherType string
and tsmember =
    TSPropertySignature string bool "tsnode option"
  | TSMethodSignature string bool "tsparam list" "tsnode option"
  | TSOtherSignature string
and tsparam =
    TSParam string bool "tsnode option"

text \<open>
  A declaration of the file: an interface with its \<^verbatim>\<open>id.name\<close>, its \<^verbatim>\<open>extends\<close>
  entries (the entry's \<^verbatim>\<open>type\<close> and its \<^verbatim>\<open>expression.name\<close>, when the expression has
  a name) and its \<^verbatim>\<open>body.body\<close>; a type alias with its right-hand side; an enum with,
  for each member, the \<^verbatim>\<open>type\<close> of its initializer when it has one. The parser leaves
  \<^verbatim>\<open>extends\<close> out of an interface that has no \<^verbatim>\<open>extends\<close> clause: the field is an
  \<open>option\<close>.
\<close>

datatype decl =
    TSInterfaceDeclaration string "(string \<times> string option) list option" "tsmember list"
  | TSTypeAliasDeclaration tsnode
  | TSEnumDeclaration "string option list"

text \<open>
  \<^verbatim>\<open>TypeDeclarationMap\<close>: a JavaScript object from declared names to declarations;
  \<^verbatim>\<open>types[name]\<close> is \<open>map_of types name\<close>, \<^verbatim>\<open>Object.values(types)\<close> is
  \<open>map snd types\<close>.
\<close>

type_synonym typeDeclarationMap = "(string \<times> decl) list"

subsection \<open>The schema\<close>

datatype 'a nullable = Nullable (isNullable: bool) (unwrapped: 'a)

datatype 'a namedShape =
  NamedShape (shapeName: string) (shapeOptional: bool) (shapeTypeAnnotation: 'a)

text \<open>
  The annotations of \<^verbatim>\<open>CodegenSchema.js\<close>. \<open>memberType\<close> of an enum or a union is the
  string the code computes; \<^verbatim>\<open>unionTypes[0]\<close> of an empty array is \<^verbatim>\<open>undefined\<close>,
  here \<open>None\<close>. An array whose element could not be translated has no \<^verbatim>\<open>elementType\<close>.
\<close>

datatype annotation =
    BooleanTypeAnnotation
  | NumberTypeAnnotation
  | Int32TypeAnnotation
  | DoubleTypeAnnotation
  | FloatTypeAnnotation
  | StringTypeAnnotation
  | StringishTypeAnnotation
  | RootTagTypeAnnotation
  | GenericObjectTypeAnnotation
  | VoidTypeAnnotation
  | PromiseTypeAnnotation
  | MixedTypeAnnotation
  | ArrayTypeAnnotation "annotation nullable option"
  | ObjectTypeAnnotation "annotation nullable namedShape list"
  | TypeAliasTypeAnnotation string
  | FunctionTypeAnnotation "annotation nullable" "annotation nullable namedShape list"
  | EnumDeclaration string
  | UnionTypeAnnotation "string option"

type_synonym nativeModuleAliasMap = "(string \<times> annotation) list"

record nativeModuleSchema =
  aliases :: nativeModuleAliasMap
  properties :: "annotation nullable namedShape list"
  moduleNames :: "string list"
  excludedPlatforms :: "string list option"

subsection \<open>Errors and results\<close>

text \<open>
  The parser errors of \<^verbatim>\<open>errors.js\<close> the module throws, by class, and the arity error
  of a generic type (\<open>GenericTypeParameterArityParserError\<close>), thrown by
  \<^verbatim>\<open>parsers-commons\<close>. \<open>JSTypeError\<close> is the error JavaScript itself raises on reading
  a field of \<^verbatim>\<open>undefined\<close>: it is not a \<^verbatim>\<open>ParserError\<close>.
\<close>

datatype error =
    MisnamedModuleInterfaceParserError
  | ModuleInterfaceNotFoundParserError
  | MoreThanOneModuleInterfaceParserError
  | UnnamedFunctionParamParserError
  | UnsupportedArrayElementTypeAnnotationParserError
  | UnsupportedGenericParserError
  | UnsupportedTypeAnnotationParserError
  | UnsupportedFunctionParamTypeAnnotationParserError
  | UnsupportedFunctionReturnTypeAnnotationParserError
  | UnsupportedEnumDeclarationParserError
  | UnsupportedUnionTypeAnnotationParserError
  | UnsupportedModulePropertyParserError
  | UnsupportedObjectPropertyTypeAnnotationParserError
  | UnsupportedObjectPropertyValueTypeAnnotationParserError
  | UnusedModuleInterfaceParserError
  | MoreThanOneModuleRegistryCallsParserError
  | UntypedModuleRegistryCallParserError
  | IncorrectModuleRegistryCallTypeParameterParserError
  | IncorrectModuleRegistryCallArityParserError
  | IncorrectModuleRegistryCallArgumentTypeParserError
  | GenericTypeParameterArityParserError
  | JSTypeError

definition isParserError :: "error \<Rightarrow> bool" where
  "isParserError e = (e \<noteq> JSTypeError)"

text \<open>
  The state a translation reads and writes: the alias map of the property being
  translated (\<^verbatim>\<open>aliasMap\<close>, mutated in place by the source) and the errors captured so
  far (the array behind \<^verbatim>\<open>tryParse\<close>).
\<close>

record pstate =
  aliasMap :: nativeModuleAliasMap
  errors :: "error list"

datatype 'a result = Returns 'a pstate | Throws error pstate

subsection \<open>Collaborators outside the module\<close>

text \<open>
  Modelled from the spec: \<^verbatim>\<open>Nullable<T>\<close> with \<^verbatim>\<open>wrapNullable\<close> and
  \<^verbatim>\<open>unwrapNullable\<close> of \<^verbatim>\<open>parsers-commons\<close>, which is not among the sources. The spec
  has a tagged pair of a flag and a value that never nests.
\<close>

definition wrapNullable :: "bool \<Rightarrow> 'a \<Rightarrow> 'a nullable" where
  "wrapNullable b a = Nullable b a"

definition unwrapNullable :: "'a nullable \<Rightarrow> 'a \<times> bool" where
  "unwrapNullable x = (unwrapped x, isNullable x)"

text \<open>
  Modelled from the spec: \<^verbatim>\<open>assertGenericTypeAnnotationHasExactlyOneTypeParameter\<close>
  of \<^verbatim>\<open>parsers-commons\<close>, which is not among the sources. The spec has a generic with
  any other count of type arguments than one be an arity error.
\<close>

definition assertGenericTypeAnnotationHasExactlyOneTypeParameter ::
  "tsnode list option \<Rightarrow> error + tsnode" where
  "assertGenericTypeAnnotationHasExactlyOneTypeParameter ps =
     (case ps of
        Some [p] \<Rightarrow> Inr p
      | _ \<Rightarrow> Inl GenericTypeParameterArityParserError)"

text \<open>
  Modelled from the spec: the emitters of \<^verbatim>\<open>parsers-primitives\<close>, which is not among
  the sources. The spec maps each keyword or marker type to its own variant, wrapped by
  the nullability flag; the promise emitter checks its type argument first.
\<close>

definition emitBoolean :: "bool \<Rightarrow> annotation nullable" where
  "emitBoolean b = wrapNullable b BooleanTypeAnnotation"

definition emitNumber :: "bool \<Rightarrow> annotation nullable" where
  "emitNumber b = wrapNullable b NumberTypeAnnotation"

definition emitInt32 :: "bool \<Rightarrow> annotation nullable" where
  "emitInt32 b = wrapNullable b Int32TypeAnnotation"

definition emitDouble :: "bool \<Rightarrow> annotation nullable" where
  "emitDouble b = wrapNullable b DoubleTypeAnnotation"

definition emitObject :: "bool \<Rightarrow> annotation nullable" where
  "emitObject b = wrapNullable b GenericObjectTypeAnnotation"

definition emitRootTag :: "bool \<Rightarrow> annotation nullable" where
  "emitRootTag b = wrapNullable b RootTagTypeAnnotation"

definition emitVoid :: "bool \<Rightarrow> annotation nullable" where
  "emitVoid b = wrapNullable b VoidTypeAnnotation"

definition emitStringish :: "bool \<Rightarrow> annotation nullable" where
  "emitStringish b = wrapNullable b StringishTypeAnnotation"

definition emitPromise :: "tsnode list option \<Rightarrow> bool \<Rightarrow> error + annotation nullable" where
  "emitPromise ps b =
     (case assertGenericTypeAnnotationHasExactlyOneTypeParameter ps of
        Inl e \<Rightarrow> Inl e
      | Inr _ \<Rightarrow> Inr (wrapNullable b PromiseTypeAnnotation))"

text \<open>
  Modelled from the spec: \<^verbatim>\<open>typeAliasResolution\<close> of \<^verbatim>\<open>parsers-primitives\<close>, which is
  not among the sources. The spec has an object type that was reached through a named
  alias recorded under that name in the alias map and referred to by name; an anonymous
  one is inlined. The second component is the alias map after the call.
\<close>

definition typeAliasResolution ::
  "string option \<Rightarrow> annotation \<Rightarrow> nativeModuleAliasMap \<Rightarrow> bool
     \<Rightarrow> annotation nullable \<times> nativeModuleAliasMap" where
  "typeAliasResolution status objectTypeAnnotation am b =
     (case status of
        None \<Rightarrow> (wrapNullable b objectTypeAnnotation, am)
      | Some aliasName \<Rightarrow>
          (wrapNullable b (TypeAliasTypeAnnotation aliasName),
           AList.update aliasName objectTypeAnnotation am))"

text \<open>
  \<^verbatim>\<open>resolveTypeAnnotation\<close> of \<^verbatim>\<open>../utils.js\<close> is not among the sources: the translator
  takes it as a parameter. It answers the nullability flag, the resolved node and the
  name of the alias the node was reached through, if any; \<open>None\<close> when it does not
  return.
\<close>

record resolved =
  nullable :: bool
  typeAnnotation :: tsnode
  typeAliasResolutionStatus :: "string option"

type_synonym resolver = "tsnode \<Rightarrow> typeDeclarationMap \<Rightarrow> resolved option"

text \<open>
  Modelled from the spec: \<^verbatim>\<open>resolveTypeAnnotation\<close> of \<^verbatim>\<open>../utils.js\<close>, for the
  examples. The spec has it unwrap nullability markers into one flag (a marker is taken
  to be a union with \<^verbatim>\<open>null\<close> or \<^verbatim>\<open>undefined\<close>, whose first other member is the
  type), and follow a reference to a declared alias to the alias's right-hand side,
  recording the alias's name. Alias chains may be cyclic: the loop carries fuel.
\<close>

definition isNullMarker :: "tsnode \<Rightarrow> bool" where
  "isNullMarker t = (t = TSNullKeyword \<or> t = TSUndefinedKeyword)"

fun resolveLoop ::
  "nat \<Rightarrow> typeDeclarationMap \<Rightarrow> tsnode \<Rightarrow> bool \<Rightarrow> string option \<Rightarrow> resolved option" where
  "resolveLoop 0 types node nul status = None"
| "resolveLoop (Suc k) types node nul status =
     (case node of
        TSUnionType ts \<Rightarrow>
          if list_ex isNullMarker ts then
            (case filter (\<lambda>t. \<not> isNullMarker t) ts of
               [] \<Rightarrow> None
             | t # _ \<Rightarrow> resolveLoop k types t True status)
          else Some \<lparr>nullable = nul, typeAnnotation = node, typeAliasResolutionStatus = status\<rparr>
      | TSTypeReference name _ \<Rightarrow>
          (case map_of types name of
             Some (TSTypeAliasDeclaration rhs) \<Rightarrow> resolveLoop k types rhs nul (Some name)
           | _ \<Rightarrow>
               Some \<lparr>nullable = nul, typeAnnotation = node,
                     typeAliasResolutionStatus = Some name\<rparr>)
      | _ \<Rightarrow> Some \<lparr>nullable = nul, typeAnnotation = node, typeAliasResolutionStatus = status\<rparr>)"

definition resolveTypeAnnotation :: "nat \<Rightarrow> resolver" where
  "resolveTypeAnnotation k node types = resolveLoop k types node False None"

text \<open>
  Modelled from the spec: the \<^verbatim>\<open>ParserErrorCapturer\<close> of \<^verbatim>\<open>../../utils\<close>, which is
  not among the sources. The spec has it run the thunk and, on a parser error, append
  the error to the list and answer absent; any other error propagates. \<open>NullGuard\<close> is
  \<^verbatim>\<open>nullGuard\<close> of the module itself, which only runs the thunk.
\<close>

datatype parserErrorCapturer = ErrorCapturer | NullGuard

definition tryParse :: "parserErrorCapturer \<Rightarrow> 'a result \<Rightarrow> 'a option result" where
  "tryParse tp r =
     (case r of
        Returns v st \<Rightarrow> Returns (Some v) st
      | Throws e st \<Rightarrow>
          (case tp of
             NullGuard \<Rightarrow> Throws e st
           | ErrorCapturer \<Rightarrow>
               if isParserError e then Returns None (st\<lparr>errors := errors st @ [e]\<rparr>)
               else Throws e st))"

subsection \<open>JavaScript library functions\<close>

text \<open>
  \<^verbatim>\<open>String.prototype.replace\<close> with a string pattern: the first occurrence of the
  pattern is replaced (the replacements used here have no \<^verbatim>\<open>$\<close>).
\<close>

fun replace :: "string \<Rightarrow> string \<Rightarrow> string \<Rightarrow> string" where
  "replace pat rep [] = (if pat = [] then rep else [])"
| "replace pat rep (c # cs) =
     (if prefix pat (c # cs) then rep @ drop (length pat) (c # cs)
      else c # replace pat rep cs)"

text \<open>\<^verbatim>\<open>Array.prototype.indexOf\<close>: the first index holding the value.\<close>

fun indexOf :: "'a list \<Rightarrow> 'a \<Rightarrow> nat option" where
  "indexOf [] v = None"
| "indexOf (x # xs) v =
     (if x = v then Some 0 else map_option Suc (indexOf xs v))"

text \<open>\<^verbatim>\<open>self.filter((value, index, self) => self.indexOf(value) === index)\<close>.\<close>

definition filterFirstOccurrences :: "'a list \<Rightarrow> 'a list" where
  "filterFirstOccurrences self =
     map snd (filter (\<lambda>(index, v). indexOf self v = Some index) (enumerate 0 self))"

text \<open>\<^verbatim>\<open>String.prototype.endsWith\<close>.\<close>

definition endsWith :: "string \<Rightarrow> string \<Rightarrow> bool" where
  "endsWith name s = suffix s name"

text \<open>
  \<^verbatim>\<open>{...a, ...b}\<close>: the entries of \<open>a\<close>, each entry of \<open>b\<close> then assigned in order; an
  assignment to a key that is there replaces its value in place.
\<close>

definition spread :: "('k \<times> 'v) list \<Rightarrow> ('k \<times> 'v) list \<Rightarrow> ('k \<times> 'v) list" where
  "spread a b = foldl (\<lambda>acc (k, v). AList.update k v acc) a b"

subsection \<open>translateArrayTypeAnnotation, translateTypeAnnotation, translateFunctionTypeAnnotation\<close>

definition isFunctionTypeAnnotation :: "annotation \<Rightarrow> bool" where
  "isFunctionTypeAnnotation a = (case a of FunctionTypeAnnotation _ _ \<Rightarrow> True | _ \<Rightarrow> False)"

text \<open>
  The body of the \<^verbatim>\<open>try\<close> of \<^verbatim>\<open>translateArrayTypeAnnotation\<close> once the element is
  translated: the three checks on the element and the annotation built from it.
\<close>

definition arrayOfElement :: "bool \<Rightarrow> annotation nullable \<Rightarrow> error + annotation nullable" where
  "arrayOfElement outerNullable translated =
     (let (elementType, isElementTypeNullable) = unwrapNullable translated in
      if elementType = VoidTypeAnnotation then
        Inl UnsupportedArrayElementTypeAnnotationParserError
      else if elementType = PromiseTypeAnnotation then
        Inl UnsupportedArrayElementTypeAnnotationParserError
      else if isFunctionTypeAnnotation elementType then
        Inl UnsupportedArrayElementTypeAnnotationParserError
      else
        Inr (wrapNullable outerNullable
               (ArrayTypeAnnotation (Some (wrapNullable isElementTypeNullable elementType)))))"

text \<open>
  The \<^verbatim>\<open>default\<close> arm of the switch on \<^verbatim>\<open>typeAnnotation.typeName.name\<close>: a reference to
  an enum declaration, in a C++-only module, is an \<^verbatim>\<open>EnumDeclaration\<close>; reading
  \<^verbatim>\<open>members[0].initializer\<close> of an enum without members is a JavaScript error.
\<close>

definition translateEnumReference ::
  "typeDeclarationMap \<Rightarrow> bool \<Rightarrow> string \<Rightarrow> bool \<Rightarrow> error + annotation nullable" where
  "translateEnumReference types cxxOnly name outerNullable =
     (case map_of types name of
        Some (TSEnumDeclaration members) \<Rightarrow>
          if cxxOnly then
            (case members of
               [] \<Rightarrow> Inl JSTypeError
             | initializer # _ \<Rightarrow>
                 (let memberType =
                    (case initializer of
                       Some t \<Rightarrow>
                         replace ''StringLiteral'' ''StringTypeAnnotation''
                           (replace ''NumericLiteral'' ''NumberTypeAnnotation'' t)
                     | None \<Rightarrow> ''StringTypeAnnotation'')
                  in if memberType = ''NumberTypeAnnotation'' \<or> memberType = ''StringTypeAnnotation''
                     then Inr (wrapNullable outerNullable (EnumDeclaration memberType))
                     else Inl UnsupportedEnumDeclarationParserError))
          else Inl UnsupportedGenericParserError
      | _ \<Rightarrow> Inl UnsupportedGenericParserError)"

text \<open>The remapping of the literal names of the members of a union.\<close>

definition unionMemberType :: "tsnode \<Rightarrow> string" where
  "unionMemberType item =
     (case item of
        TSLiteralType t \<Rightarrow>
          replace ''StringLiteral'' ''StringTypeAnnotation''
            (replace ''NumericLiteral'' ''NumberTypeAnnotation'' t)
      | _ \<Rightarrow> ''ObjectTypeAnnotation'')"

definition translateUnion :: "tsnode list \<Rightarrow> bool \<Rightarrow> error + annotation nullable" where
  "translateUnion ts outerNullable =
     (let unionTypes = filterFirstOccurrences (map unionMemberType ts) in
      if length unionTypes > 1 then Inl UnsupportedUnionTypeAnnotationParserError
      else Inr (wrapNullable outerNullable
                  (UnionTypeAnnotation (case unionTypes of [] \<Rightarrow> None | t # _ \<Rightarrow> Some t))))"

text \<open>A value or an exception, in the state it was computed in.\<close>

definition settle :: "error + 'a \<Rightarrow> pstate \<Rightarrow> 'a result" where
  "settle r st = (case r of Inl e \<Rightarrow> Throws e st | Inr v \<Rightarrow> Returns v st)"

text \<open>
  The checks on the translated type of a property of an object type, and on the
  translated type of a parameter.
\<close>

definition objectPropertyOf ::
  "string \<Rightarrow> bool \<Rightarrow> annotation nullable \<Rightarrow> error + annotation nullable namedShape" where
  "objectPropertyOf key optional translated =
     (let (propertyTypeAnnotation, isPropertyNullable) = unwrapNullable translated in
      if isFunctionTypeAnnotation propertyTypeAnnotation then
        Inl UnsupportedObjectPropertyValueTypeAnnotationParserError
      else if propertyTypeAnnotation = VoidTypeAnnotation then
        Inl UnsupportedObjectPropertyValueTypeAnnotationParserError
      else if propertyTypeAnnotation = PromiseTypeAnnotation then
        Inl UnsupportedObjectPropertyValueTypeAnnotationParserError
      else Inr (NamedShape key optional (wrapNullable isPropertyNullable propertyTypeAnnotation)))"

definition paramOf ::
  "string \<Rightarrow> bool \<Rightarrow> annotation nullable \<Rightarrow> error + annotation nullable namedShape" where
  "paramOf paramName optional translated =
     (let (paramTypeAnnotation, isParamTypeAnnotationNullable) = unwrapNullable translated in
      if paramTypeAnnotation = VoidTypeAnnotation then
        Inl UnsupportedFunctionParamTypeAnnotationParserError
      else if paramTypeAnnotation = PromiseTypeAnnotation then
        Inl UnsupportedFunctionParamTypeAnnotationParserError
      else Inr (NamedShape paramName optional
                  (wrapNullable isParamTypeAnnotationNullable paramTypeAnnotation)))"

definition functionOf ::
  "bool \<Rightarrow> annotation nullable namedShape list \<Rightarrow> annotation nullable \<Rightarrow> error + annotation" where
  "functionOf cxxOnly params translated =
     (let (returnTypeAnnotation, isReturnTypeAnnotationNullable) = unwrapNullable translated in
      if \<not> cxxOnly \<and> isFunctionTypeAnnotation returnTypeAnnotation then
        Inl UnsupportedFunctionReturnTypeAnnotationParserError
      else Inr (FunctionTypeAnnotation
                  (wrapNullable isReturnTypeAnnotationNullable returnTypeAnnotation) params))"

text \<open>
  The three translators, with the two closures handed to \<^verbatim>\<open>tryParse\<close>
  (\<open>translateObjectProperty\<close>, \<open>translateParam\<close>) and the two loops over them
  (\<open>translateObjectProperties\<close> is the \<^verbatim>\<open>map\<close> and \<^verbatim>\<open>filter(Boolean)\<close> over the members
  of an object type, \<open>translateParams\<close> the \<^verbatim>\<open>for\<close> over the parameters). The module name
  handed to the errors is left out, the errors being kept by class only.
  \<open>translateTypeAnnotation\<close> spends one unit of fuel at each call.
\<close>

function (sequential) translateArrayTypeAnnotation ::
    "nat \<Rightarrow> resolver \<Rightarrow> typeDeclarationMap \<Rightarrow> bool \<Rightarrow> tsnode \<Rightarrow> bool \<Rightarrow> pstate
       \<Rightarrow> annotation nullable result option"
  and translateTypeAnnotation ::
    "nat \<Rightarrow> resolver \<Rightarrow> tsnode \<Rightarrow> typeDeclarationMap \<Rightarrow> parserErrorCapturer \<Rightarrow> bool \<Rightarrow> pstate
       \<Rightarrow> annotation nullable result option"
  and translateObjectProperty ::
    "nat \<Rightarrow> resolver \<Rightarrow> tsmember \<Rightarrow> typeDeclarationMap \<Rightarrow> parserErrorCapturer \<Rightarrow> bool \<Rightarrow> pstate
       \<Rightarrow> annotation nullable namedShape result option"
  and translateObjectProperties ::
    "nat \<Rightarrow> resolver \<Rightarrow> tsmember list \<Rightarrow> typeDeclarationMap \<Rightarrow> parserErrorCapturer \<Rightarrow> bool
       \<Rightarrow> pstate \<Rightarrow> annotation nullable namedShape list result option"
  and translateParam ::
    "nat \<Rightarrow> resolver \<Rightarrow> tsparam \<Rightarrow> typeDeclarationMap \<Rightarrow> parserErrorCapturer \<Rightarrow> bool \<Rightarrow> pstate
       \<Rightarrow> annotation nullable namedShape result option"
  and translateParams ::
    "nat \<Rightarrow> resolver \<Rightarrow> tsparam list \<Rightarrow> typeDeclarationMap \<Rightarrow> parserErrorCapturer \<Rightarrow> bool
       \<Rightarrow> pstate \<Rightarrow> annotation nullable namedShape list result option"
  and translateFunctionTypeAnnotation ::
    "nat \<Rightarrow> resolver \<Rightarrow> tsparam list \<Rightarrow> tsnode option \<Rightarrow> typeDeclarationMap
       \<Rightarrow> parserErrorCapturer \<Rightarrow> bool \<Rightarrow> pstate \<Rightarrow> annotation result option"
where
  "translateArrayTypeAnnotation n rs types cxxOnly tsElementType outerNullable st =
     (case translateTypeAnnotation n rs tsElementType types NullGuard cxxOnly st of
        None \<Rightarrow> None
      | Some (Throws ex st') \<Rightarrow>
          Some (Returns (wrapNullable outerNullable (ArrayTypeAnnotation None)) st')
      | Some (Returns translated st') \<Rightarrow>
          (case arrayOfElement outerNullable translated of
             Inl ex \<Rightarrow> Some (Returns (wrapNullable outerNullable (ArrayTypeAnnotation None)) st')
           | Inr finalTypeAnnotation \<Rightarrow> Some (Returns finalTypeAnnotation st')))"
| "translateTypeAnnotation 0 rs typeScriptTypeAnnotation types tp cxxOnly st = None"
| "translateTypeAnnotation (Suc n) rs typeScriptTypeAnnotation types tp cxxOnly st =
     (case rs typeScriptTypeAnnotation types of
        None \<Rightarrow> None
      | Some r \<Rightarrow>
          (case typeAnnotation r of
             TSArrayType elementType \<Rightarrow>
               translateArrayTypeAnnotation n rs types cxxOnly elementType (nullable r) st
           | TSTypeOperator operator inner \<Rightarrow>
               (case inner of
                  TSArrayType elementType \<Rightarrow>
                    if operator = ''readonly'' then
                      translateArrayTypeAnnotation n rs types cxxOnly elementType (nullable r) st
                    else Some (Throws UnsupportedGenericParserError st)
                | _ \<Rightarrow> Some (Throws UnsupportedGenericParserError st))
           | TSTypeReference name typeParameters \<Rightarrow>
               if name = ''RootTag'' then Some (Returns (emitRootTag (nullable r)) st)
               else if name = ''Promise'' then
                 Some (settle (emitPromise typeParameters (nullable r)) st)
               else if name = ''Array'' \<or> name = ''ReadonlyArray'' then
                 (case assertGenericTypeAnnotationHasExactlyOneTypeParameter typeParameters of
                    Inl e \<Rightarrow> Some (Throws e st)
                  | Inr param \<Rightarrow>
                      translateArrayTypeAnnotation n rs types cxxOnly param (nullable r) st)
               else if name = ''Stringish'' then Some (Returns (emitStringish (nullable r)) st)
               else if name = ''Int32'' then Some (Returns (emitInt32 (nullable r)) st)
               else if name = ''Double'' then Some (Returns (emitDouble (nullable r)) st)
               else if name = ''Float'' then
                 Some (Returns (wrapNullable (nullable r) FloatTypeAnnotation) st)
               else if name = ''UnsafeObject'' \<or> name = ''Object'' then
                 Some (Returns (emitObject (nullable r)) st)
               else Some (settle (translateEnumReference types cxxOnly name (nullable r)) st)
           | TSTypeLiteral members \<Rightarrow>
               (case translateObjectProperties n rs members types tp cxxOnly st of
                  None \<Rightarrow> None
                | Some (Throws e st') \<Rightarrow> Some (Throws e st')
                | Some (Returns props st') \<Rightarrow>
                    (let (res, am) =
                       typeAliasResolution (typeAliasResolutionStatus r)
                         (ObjectTypeAnnotation props) (aliasMap st') (nullable r)
                     in Some (Returns res (st'\<lparr>aliasMap := am\<rparr>))))
           | TSBooleanKeyword \<Rightarrow> Some (Returns (emitBoolean (nullable r)) st)
           | TSNumberKeyword \<Rightarrow> Some (Returns (emitNumber (nullable r)) st)
           | TSVoidKeyword \<Rightarrow> Some (Returns (emitVoid (nullable r)) st)
           | TSStringKeyword \<Rightarrow>
               Some (Returns (wrapNullable (nullable r) StringTypeAnnotation) st)
           | TSFunctionType parameters returnType \<Rightarrow>
               (case translateFunctionTypeAnnotation n rs parameters returnType types tp cxxOnly st of
                  None \<Rightarrow> None
                | Some (Throws e st') \<Rightarrow> Some (Throws e st')
                | Some (Returns f st') \<Rightarrow> Some (Returns (wrapNullable (nullable r) f) st'))
           | TSUnionType ts \<Rightarrow>
               if cxxOnly then Some (settle (translateUnion ts (nullable r)) st)
               else Some (Throws UnsupportedTypeAnnotationParserError st)
           | TSUnknownKeyword \<Rightarrow>
               if cxxOnly then Some (Returns (wrapNullable (nullable r) MixedTypeAnnotation) st)
               else Some (Throws UnsupportedTypeAnnotationParserError st)
           | _ \<Rightarrow> Some (Throws UnsupportedTypeAnnotationParserError st)))"
| "translateObjectProperty n rs property types tp cxxOnly st =
     (case property of
        TSPropertySignature key optional annotated \<Rightarrow>
          (case annotated of
             None \<Rightarrow> Some (Throws JSTypeError st)
           | Some a \<Rightarrow>
               (case translateTypeAnnotation n rs a types tp cxxOnly st of
                  None \<Rightarrow> None
                | Some (Throws e st') \<Rightarrow> Some (Throws e st')
                | Some (Returns translated st') \<Rightarrow>
                    Some (settle (objectPropertyOf key optional translated) st')))
      | _ \<Rightarrow> Some (Throws UnsupportedObjectPropertyTypeAnnotationParserError st))"
| "translateObjectProperties n rs [] types tp cxxOnly st = Some (Returns [] st)"
| "translateObjectProperties n rs (property # rest) types tp cxxOnly st =
     (case translateObjectProperty n rs property types tp cxxOnly st of
        None \<Rightarrow> None
      | Some r \<Rightarrow>
          (case tryParse tp r of
             Throws e st' \<Rightarrow> Some (Throws e st')
           | Returns parsed st' \<Rightarrow>
               (case translateObjectProperties n rs rest types tp cxxOnly st' of
                  None \<Rightarrow> None
                | Some (Throws e st'') \<Rightarrow> Some (Throws e st'')
                | Some (Returns props st'') \<Rightarrow>
                    Some (Returns (case parsed of None \<Rightarrow> props | Some p \<Rightarrow> p # props) st''))))"
| "translateParam n rs typeScriptParam types tp cxxOnly st =
     (case typeScriptParam of
        TSParam paramName optional annotated \<Rightarrow>
          (case annotated of
             None \<Rightarrow> Some (Throws UnnamedFunctionParamParserError st)
           | Some a \<Rightarrow>
               (case translateTypeAnnotation n rs a types tp cxxOnly st of
                  None \<Rightarrow> None
                | Some (Throws e st') \<Rightarrow> Some (Throws e st')
                | Some (Returns translated st') \<Rightarrow>
                    Some (settle (paramOf paramName optional translated) st'))))"
| "translateParams n rs [] types tp cxxOnly st = Some (Returns [] st)"
| "translateParams n rs (typeScriptParam # rest) types tp cxxOnly st =
     (case translateParam n rs typeScriptParam types tp cxxOnly st of
        None \<Rightarrow> None
      | Some r \<Rightarrow>
          (case tryParse tp r of
             Throws e st' \<Rightarrow> Some (Throws e st')
           | Returns parsedParam st' \<Rightarrow>
               (case translateParams n rs rest types tp cxxOnly st' of
                  None \<Rightarrow> None
                | Some (Throws e st'') \<Rightarrow> Some (Throws e st'')
                | Some (Returns params st'') \<Rightarrow>
                    Some (Returns (case parsedParam of None \<Rightarrow> params | Some p \<Rightarrow> p # params)
                            st''))))"
| "translateFunctionTypeAnnotation n rs parameters returnType types tp cxxOnly st =
     (case translateParams n rs parameters types tp cxxOnly st of
        None \<Rightarrow> None
      | Some (Throws e st') \<Rightarrow> Some (Throws e st')
      | Some (Returns params st') \<Rightarrow>
          (case returnType of
             None \<Rightarrow> Some (Throws JSTypeError st')
           | Some a \<Rightarrow>
               (case translateTypeAnnotation n rs a types tp cxxOnly st' of
                  None \<Rightarrow> None
                | Some (Throws e st'') \<Rightarrow> Some (Throws e st'')
                | Some (Returns translated st'') \<Rightarrow>
                    Some (settle (functionOf cxxOnly params translated) st''))))"
  by pat_completeness auto

text \<open>
  Each call of \<open>translateTypeAnnotation\<close> spends fuel; the other functions call it with
  the fuel they were given, and the two loops go down their lists.
\<close>

termination
  apply (relation "inv_image (less_than <*lex*> less_than)
        (\<lambda>x. case x of
             Inl (Inl (n, _)) \<Rightarrow> (3 * n + 1, 0)
           | Inl (Inr (Inl (n, _))) \<Rightarrow> (3 * n, 0)
           | Inl (Inr (Inr (n, _))) \<Rightarrow> (3 * n + 1, 0)
           | Inr (Inl (Inl (n, rs, ms, _))) \<Rightarrow> (3 * n + 2, length ms)
           | Inr (Inl (Inr (n, _))) \<Rightarrow> (3 * n + 1, 0)
           | Inr (Inr (Inl (n, rs, ps, _))) \<Rightarrow> (3 * n + 2, length ps)
           | Inr (Inr (Inr (n, rs, ps, _))) \<Rightarrow> (3 * n + 2, Suc (length ps)))")
  apply (rule wf_inv_image, rule wf_lex_prod, rule wf_less_than, rule wf_less_than)
  apply simp_all
  done

subsection \<open>buildPropertySchema\<close>

text \<open>
  \<^verbatim>\<open>value\<close> is the member itself for a method signature and its \<^verbatim>\<open>typeAnnotation\<close>
  otherwise; resolving a missing annotation fails with an error that is not a parser
  error.
\<close>

definition buildPropertySchema ::
  "nat \<Rightarrow> resolver \<Rightarrow> tsmember \<Rightarrow> typeDeclarationMap \<Rightarrow> parserErrorCapturer \<Rightarrow> bool \<Rightarrow> pstate
     \<Rightarrow> annotation nullable namedShape result option" where
  "buildPropertySchema n rs property types tp cxxOnly st =
     (let (methodName, optional, v) =
        (case property of
           TSMethodSignature key opt parameters returnType \<Rightarrow>
             (key, opt, Some (TSMethodSignatureNode parameters returnType))
         | TSPropertySignature key opt annotated \<Rightarrow> (key, opt, annotated)
         | TSOtherSignature _ \<Rightarrow> ([], False, None))
      in case v of
           None \<Rightarrow> Some (Throws JSTypeError st)
         | Some a \<Rightarrow>
             (case rs a types of
                None \<Rightarrow> None
              | Some r \<Rightarrow>
                  (let translateFunction = (\<lambda>parameters returnType.
                     case translateFunctionTypeAnnotation n rs parameters returnType types tp
                            cxxOnly st of
                       None \<Rightarrow> None
                     | Some (Throws e st') \<Rightarrow> Some (Throws e st')
                     | Some (Returns f st') \<Rightarrow>
                         Some (Returns (NamedShape methodName optional
                                          (wrapNullable (nullable r) f)) st'))
                   in case typeAnnotation r of
                        TSFunctionType parameters returnType \<Rightarrow>
                          translateFunction parameters returnType
                      | TSMethodSignatureNode parameters returnType \<Rightarrow>
                          translateFunction parameters returnType
                      | _ \<Rightarrow> Some (Throws UnsupportedModulePropertyParserError st))))"

subsection \<open>buildModuleSchema\<close>

text \<open>
  \<^verbatim>\<open>isModuleInterface\<close> reads \<^verbatim>\<open>node.extends.length\<close> of every interface declaration:
  of an interface without \<^verbatim>\<open>extends\<close> clause the read is of \<^verbatim>\<open>undefined\<close> and
  JavaScript throws.
\<close>

definition isModuleInterface :: "decl \<Rightarrow> error + bool" where
  "isModuleInterface node =
     (case node of
        TSInterfaceDeclaration _ extends _ \<Rightarrow>
          (case extends of
             None \<Rightarrow> Inl JSTypeError
           | Some [(t, expressionName)] \<Rightarrow>
               Inr (t = ''TSExpressionWithTypeArguments'' \<and> expressionName = Some ''TurboModule'')
           | Some _ \<Rightarrow> Inr False)
      | _ \<Rightarrow> Inr False)"

text \<open>
  \<^verbatim>\<open>Object.values(types).filter(isModuleInterface)\<close>: the declarations are gone through
  in order, and the first one the predicate throws on ends the filter.
\<close>

fun filterModuleInterfaces :: "decl list \<Rightarrow> error + decl list" where
  "filterModuleInterfaces [] = Inr []"
| "filterModuleInterfaces (node # rest) =
     (case isModuleInterface node of
        Inl e \<Rightarrow> Inl e
      | Inr keep \<Rightarrow>
          (case filterModuleInterfaces rest of
             Inl e \<Rightarrow> Inl e
           | Inr kept \<Rightarrow> Inr (if keep then node # kept else kept)))"

text \<open>
  \<^verbatim>\<open>id.name\<close> and \<^verbatim>\<open>body.body\<close> of an interface declaration (the module reads them
  of declarations that passed \<^verbatim>\<open>isModuleInterface\<close> only).
\<close>

definition idName :: "decl \<Rightarrow> string" where
  "idName node = (case node of TSInterfaceDeclaration name _ _ \<Rightarrow> name | _ \<Rightarrow> [])"

definition body :: "decl \<Rightarrow> tsmember list" where
  "body node = (case node of TSInterfaceDeclaration _ _ members \<Rightarrow> members | _ \<Rightarrow> [])"

text \<open>
  A call expression of the tree: its arguments (the \<^verbatim>\<open>type\<close> and the \<^verbatim>\<open>value\<close> of
  each) and its \<^verbatim>\<open>typeParameters\<close> (their \<^verbatim>\<open>type\<close> and \<^verbatim>\<open>params\<close>), when it has them.
\<close>

datatype callArgument = CallArgument (argumentType: string) (argumentValue: string)

datatype typeParameterInstantiation =
  TypeParameters (instantiationType: string) (params: "tsnode list")

record callExpression =
  arguments :: "callArgument list"
  typeParameters :: "typeParameterInstantiation option"

text \<open>
  What \<^verbatim>\<open>buildModuleSchema\<close> reads of the tree. \<^verbatim>\<open>getTypes\<close>, \<^verbatim>\<open>visit\<close> and
  \<^verbatim>\<open>isModuleRegistryCall\<close> of \<^verbatim>\<open>../utils.js\<close> are not among the sources, so the tree
  is given by what they answer: \<open>astTypes\<close> is \<^verbatim>\<open>getTypes(ast)\<close>, \<open>astRegistryCalls\<close>
  is the list of the call expressions of the tree that \<^verbatim>\<open>isModuleRegistryCall\<close> accepts,
  as \<^verbatim>\<open>visit\<close> meets them.
\<close>

record ast =
  astTypes :: typeDeclarationMap
  astRegistryCalls :: "callExpression list"

text \<open>The function handed to \<^verbatim>\<open>tryParse\<close> to parse the module name.\<close>

definition parseModuleName :: "callExpression list \<Rightarrow> error + string" where
  "parseModuleName callExpressions =
     (case callExpressions of
        [] \<Rightarrow> Inl UnusedModuleInterfaceParserError
      | [callExpression] \<Rightarrow>
          (case arguments callExpression of
             [argument] \<Rightarrow>
               if argumentType argument \<noteq> ''StringLiteral'' then
                 Inl IncorrectModuleRegistryCallArgumentTypeParserError
               else
                 (case typeParameters callExpression of
                    None \<Rightarrow> Inl UntypedModuleRegistryCallParserError
                  | Some tps \<Rightarrow>
                      if instantiationType tps \<noteq> ''TSTypeParameterInstantiation''
                         \<or> (case params tps of
                               [TSTypeReference name _] \<Rightarrow> name \<noteq> ''Spec''
                             | _ \<Rightarrow> True)
                      then Inl IncorrectModuleRegistryCallTypeParameterParserError
                      else Inr (argumentValue argument))
           | _ \<Rightarrow> Inl IncorrectModuleRegistryCallArityParserError)
      | _ \<Rightarrow> Inl MoreThanOneModuleRegistryCallsParserError)"

text \<open>
  The \<^verbatim>\<open>forEach\<close> over \<^verbatim>\<open>namesToValidate\<close>: one step, on \<^verbatim>\<open>cxxOnly\<close> and
  \<^verbatim>\<open>excludedPlatforms\<close>, and the loop.
\<close>

definition validateName :: "bool \<times> string list \<Rightarrow> string \<Rightarrow> bool \<times> string list" where
  "validateName acc name =
     (let (cxxOnly, excluded) = acc in
      if endsWith name ''Android'' then (cxxOnly, excluded @ [''iOS''])
      else if endsWith name ''IOS'' then (cxxOnly, excluded @ [''android''])
      else if endsWith name ''Cxx'' then (True, excluded @ [''iOS'', ''android''])
      else (cxxOnly, excluded))"

definition validateNames :: "string list \<Rightarrow> bool \<times> string list" where
  "validateNames namesToValidate = foldl validateName (False, []) namesToValidate"

definition isSignature :: "tsmember \<Rightarrow> bool" where
  "isSignature property =
     (case property of
        TSMethodSignature _ _ _ _ \<Rightarrow> True
      | TSPropertySignature _ _ _ \<Rightarrow> True
      | _ \<Rightarrow> False)"

text \<open>
  The \<^verbatim>\<open>map\<close> over the members of the interface: each gets a new alias map and is
  built under \<^verbatim>\<open>tryParse\<close>; the errors captured so far go from one member to the next.
\<close>

fun buildProperties ::
  "nat \<Rightarrow> resolver \<Rightarrow> tsmember list \<Rightarrow> typeDeclarationMap \<Rightarrow> parserErrorCapturer \<Rightarrow> bool
     \<Rightarrow> error list
     \<Rightarrow> ((error + (nativeModuleAliasMap \<times> annotation nullable namedShape) option list)
          \<times> error list) option" where
  "buildProperties n rs [] types tp cxxOnly errs = Some (Inr [], errs)"
| "buildProperties n rs (property # rest) types tp cxxOnly errs =
     (case buildPropertySchema n rs property types tp cxxOnly \<lparr>aliasMap = [], errors = errs\<rparr> of
        None \<Rightarrow> None
      | Some r \<Rightarrow>
          (case tryParse tp r of
             Throws e st' \<Rightarrow> Some (Inl e, errors st')
           | Returns parsed st' \<Rightarrow>
               (case buildProperties n rs rest types tp cxxOnly (errors st') of
                  None \<Rightarrow> None
                | Some (Inl e, errs') \<Rightarrow> Some (Inl e, errs')
                | Some (Inr pairs, errs') \<Rightarrow>
                    Some (Inr (map_option (\<lambda>propertyShape. (aliasMap st', propertyShape)) parsed
                               # pairs), errs'))))"

text \<open>The function handed to \<^verbatim>\<open>reduce\<close>, and the \<^verbatim>\<open>filter(Boolean)\<close> and \<^verbatim>\<open>reduce\<close>.\<close>

definition reduceStep ::
  "nativeModuleSchema \<Rightarrow> nativeModuleAliasMap \<times> annotation nullable namedShape
     \<Rightarrow> nativeModuleSchema" where
  "reduceStep moduleSchema pair =
     (let (am, propertyShape) = pair in
      \<lparr>aliases = spread (aliases moduleSchema) am,
       properties = properties moduleSchema @ [propertyShape],
       moduleNames = moduleNames moduleSchema,
       excludedPlatforms = excludedPlatforms moduleSchema\<rparr>)"

definition reduceProperties ::
  "string list \<Rightarrow> string list
     \<Rightarrow> (nativeModuleAliasMap \<times> annotation nullable namedShape) option list
     \<Rightarrow> nativeModuleSchema" where
  "reduceProperties names excluded pairs =
     foldl reduceStep
       \<lparr>aliases = [], properties = [], moduleNames = names,
        excludedPlatforms = (if excluded \<noteq> [] then Some excluded else None)\<rparr>
       (List.map_filter (\<lambda>pair. pair) pairs)"

text \<open>
  \<^verbatim>\<open>buildModuleSchema\<close>, from the errors captured so far to the schema or the exception,
  and the errors captured then.
\<close>

definition buildModuleSchema ::
  "nat \<Rightarrow> resolver \<Rightarrow> string \<Rightarrow> ast \<Rightarrow> parserErrorCapturer \<Rightarrow> error list
     \<Rightarrow> ((error + nativeModuleSchema) \<times> error list) option" where
  "buildModuleSchema n rs hasteModuleName tree tp errs =
     (let types = astTypes tree
      in case filterModuleInterfaces (map snd types) of
           Inl e \<Rightarrow> Some (Inl e, errs)
         | Inr [] \<Rightarrow> Some (Inl ModuleInterfaceNotFoundParserError, errs)
         | Inr [moduleSpec] \<Rightarrow>
             if idName moduleSpec \<noteq> ''Spec'' then
               Some (Inl MisnamedModuleInterfaceParserError, errs)
             else
               (case tryParse tp
                       (settle (parseModuleName (astRegistryCalls tree))
                          \<lparr>aliasMap = [], errors = errs\<rparr>) of
                  Throws e st' \<Rightarrow> Some (Inl e, errors st')
                | Returns moduleName st' \<Rightarrow>
                    (let names = (case moduleName of None \<Rightarrow> [] | Some m \<Rightarrow> [m]);
                         (cxxOnly, excluded) = validateNames (names @ [hasteModuleName])
                     in case buildProperties n rs (filter isSignature (body moduleSpec)) types tp
                               cxxOnly (errors st') of
                          None \<Rightarrow> None
                        | Some (Inl e, errs') \<Rightarrow> Some (Inl e, errs')
                        | Some (Inr pairs, errs') \<Rightarrow>
                            Some (Inr (reduceProperties names excluded pairs), errs')))
         | Inr _ \<Rightarrow> Some (Inl MoreThanOneModuleInterfaceParserError, errs))"

subsection \<open>Definitions for the properties\<close>

text \<open>
  The members of a list in the order of their first occurrence, leaving out those seen
  already: what the \<^verbatim>\<open>filter\<close> on \<^verbatim>\<open>indexOf\<close> computes.
\<close>

fun firstOccurrences :: "'a list \<Rightarrow> 'a list \<Rightarrow> 'a list" where
  "firstOccurrences seen [] = []"
| "firstOccurrences seen (x # xs) =
     (if x \<in> set seen then firstOccurrences seen xs else x # firstOccurrences (seen @ [x]) xs)"

text \<open>
  The kind of a member of a union as the specification words it: a numeric literal is of
  the number kind, a string literal of the string kind, any other member of the object
  kind.
\<close>

definition normalizedKind :: "tsnode \<Rightarrow> string" where
  "normalizedKind item =
     (if item = TSLiteralType ''NumericLiteral'' then ''NumberTypeAnnotation''
      else if item = TSLiteralType ''StringLiteral'' then ''StringTypeAnnotation''
      else ''ObjectTypeAnnotation'')"

text \<open>
  The names the switch on \<^verbatim>\<open>typeAnnotation.typeName.name\<close> has an arm for; a reference
  by any other name reaches the \<^verbatim>\<open>default\<close> arm, where the name is looked up among the
  declarations.
\<close>

definition reservedTypeNames :: "string list" where
  "reservedTypeNames =
     [''RootTag'', ''Promise'', ''Array'', ''ReadonlyArray'', ''Stringish'', ''Int32'',
      ''Double'', ''Float'', ''UnsafeObject'', ''Object'']"

text \<open>
  The platform suffixes as the specification words them, each suffix checked on its own:
  what one name excludes, and whether some name makes the module C++-only.
\<close>

definition excludedFor :: "string \<Rightarrow> string list" where
  "excludedFor name =
     (if endsWith name ''Android'' then [''iOS''] else [])
     @ (if endsWith name ''IOS'' then [''android''] else [])
     @ (if endsWith name ''Cxx'' then [''iOS'', ''android''] else [])"

definition nativeOnlyFor :: "string list \<Rightarrow> bool" where
  "nativeOnlyFor names = list_ex (\<lambda>name. endsWith name ''Cxx'') names"

text \<open>
  For the examples: the interface \<^verbatim>\<open>Spec extends TurboModule\<close> with the given members,
  and the registry call \<^verbatim>\<open>get<Spec>('name')\<close>.
\<close>

definition specInterface :: "tsmember list \<Rightarrow> decl" where
  "specInterface members =
     TSInterfaceDeclaration ''Spec''
       (Some [(''TSExpressionWithTypeArguments'', Some ''TurboModule'')]) members"

definition registryCall :: "string \<Rightarrow> callExpression" where
  "registryCall moduleName =
     \<lparr>arguments = [CallArgument ''StringLiteral'' moduleName],
      typeParameters =
        Some (TypeParameters ''TSTypeParameterInstantiation'' [TSTypeReference ''Spec'' None])\<rparr>"

text \<open>
  The state a result was computed in, and a run that captured no error: it did not
  return, or the errors captured are those of the state it started in.
\<close>

fun stateOf :: "'a result \<Rightarrow> pstate" where
  "stateOf (Returns v st) = st"
| "stateOf (Throws e st) = st"

definition quiet :: "pstate \<Rightarrow> 'a result option \<Rightarrow> bool" where
  "quiet st x = (case x of None \<Rightarrow> True | Some r \<Rightarrow> errors (stateOf r) = errors st)"

text \<open>The name of a parameter of the tree.\<close>

fun paramName :: "tsparam \<Rightarrow> string" where
  "paramName (TSParam name optional annotated) = name"

text \<open>
  A run that kept what was captured: it did not return, or the errors captured when it
  started are the first of those captured when it ended.
\<close>

definition grows :: "pstate \<Rightarrow> 'a result option \<Rightarrow> bool" where
  "grows st x = (case x of None \<Rightarrow> True | Some r \<Rightarrow> prefix (errors st) (errors (stateOf r)))"

text \<open>The errors the function that parses the module name throws.\<close>

definition registrationFaults :: "error list" where
  "registrationFaults =
     [UnusedModuleInterfaceParserError, MoreThanOneModuleRegistryCallsParserError,
      IncorrectModuleRegistryCallArityParserError,
      IncorrectModuleRegistryCallArgumentTypeParserError,
      UntypedModuleRegistryCallParserError,
      IncorrectModuleRegistryCallTypeParameterParserError]"

text \<open>
  What a call ended in, the state left out: the value it returned or the error it threw.
\<close>

fun outcomeOf :: "'a result \<Rightarrow> error + 'a" where
  "outcomeOf (Returns v st) = Inr v"
| "outcomeOf (Throws e st) = Inl e"

fun returned :: "'a result \<Rightarrow> bool" where
  "returned (Returns v st) = True"
| "returned (Throws e st) = False"

text \<open>
  The annotations a run can register under an alias name: the object annotation made of
  the translated members of an object type that the resolver reached through the name.
  The members are translated under the \<^verbatim>\<open>tryParse\<close> of the run or, inside an array,
  under \<^verbatim>\<open>nullGuard\<close>. An alias map of the run has each name once, with such an
  annotation.
\<close>

inductive registers ::
  "resolver \<Rightarrow> typeDeclarationMap \<Rightarrow> parserErrorCapturer \<Rightarrow> bool \<Rightarrow> string \<Rightarrow> annotation \<Rightarrow> bool"
  for rs types tp cxxOnly where
  registersI:
    "rs node types = Some r \<Longrightarrow> typeAnnotation r = TSTypeLiteral members \<Longrightarrow>
     typeAliasResolutionStatus r = Some name \<Longrightarrow> t = tp \<or> t = NullGuard \<Longrightarrow>
     translateObjectProperties n rs members types t cxxOnly st = Some (Returns props st') \<Longrightarrow>
     registers rs types tp cxxOnly name (ObjectTypeAnnotation props)"

definition registered ::
  "resolver \<Rightarrow> typeDeclarationMap \<Rightarrow> parserErrorCapturer \<Rightarrow> bool \<Rightarrow> nativeModuleAliasMap \<Rightarrow> bool"
  where
  "registered rs types tp cxxOnly am =
     (distinct (map fst am)
      \<and> (\<forall>entry \<in> set am. registers rs types tp cxxOnly (fst entry) (snd entry)))"

text \<open>
  A resolver that reaches one object type through one alias name, whatever the
  reference it started from.
\<close>

definition aliasConsistent :: "resolver \<Rightarrow> typeDeclarationMap \<Rightarrow> bool" where
  "aliasConsistent rs types =
     (\<forall>nodea nodeb ra rb name membersa membersb.
        rs nodea types = Some ra \<and> rs nodeb types = Some rb
        \<and> typeAnnotation ra = TSTypeLiteral membersa \<and> typeAnnotation rb = TSTypeLiteral membersb
        \<and> typeAliasResolutionStatus ra = Some name \<and> typeAliasResolutionStatus rb = Some name
        \<longrightarrow> membersa = membersb)"

text \<open>
  The unwrapping of nullability markers alone, with no reference followed: the steps of
  \<open>resolveLoop\<close> between the last alias it went through and the node it answers.
\<close>

inductive strips :: "tsnode \<Rightarrow> tsnode \<Rightarrow> bool" where
  stripsRefl: "strips node node"
| stripsMarker:
    "list_ex isNullMarker ts \<Longrightarrow> filter (\<lambda>t. \<not> isNullMarker t) ts = t # others \<Longrightarrow>
     strips t node \<Longrightarrow> strips (TSUnionType ts) node"

text \<open>
  The merge of alias maps in the words of the specification, to compare the \<^verbatim>\<open>reduce\<close>
  with: the entries of the earlier map stay, and an entry of the later map is added
  when no entry has its name (a later entry does not overwrite an earlier one of the
  same name: the first registration wins).
\<close>

fun mergeFirstWins :: "('k \<times> 'v) list \<Rightarrow> ('k \<times> 'v) list \<Rightarrow> ('k \<times> 'v) list" where
  "mergeFirstWins a [] = a"
| "mergeFirstWins a (entry # b) =
     mergeFirstWins (if fst entry \<in> fst ` set a then a else a @ [entry]) b"

section \<open>Properties\<close>

subsection \<open>Unions outside C++-only modules\<close>

text \<open>
  C4, as the code has it: a node that resolves to a union, translated with
  \<^verbatim>\<open>cxxOnly\<close> off, falls through the arm of the unknown keyword to the \<^verbatim>\<open>default\<close> arm
  and is rejected there with an \<^verbatim>\<open>UnsupportedTypeAnnotationParserError\<close>, whatever
  its members; the state is as it was.
\<close>

theorem union_rejected_when_not_cxxOnly:
  assumes "rs node types = Some r" and "typeAnnotation r = TSUnionType ts"
  shows "translateTypeAnnotation (Suc n) rs node types tp False st
           = Some (Throws UnsupportedTypeAnnotationParserError st)"
  using assms by simp

theorem union_rejected_when_not_cxxOnly_witness:
  "resolveTypeAnnotation 1
     (TSUnionType [TSLiteralType ''NumericLiteral'', TSLiteralType ''NumericLiteral'']) []
     = Some \<lparr>nullable = False,
             typeAnnotation =
               TSUnionType [TSLiteralType ''NumericLiteral'', TSLiteralType ''NumericLiteral''],
             typeAliasResolutionStatus = None\<rparr>
   \<and> translateTypeAnnotation (Suc 0) (resolveTypeAnnotation 1)
        (TSUnionType [TSLiteralType ''NumericLiteral'', TSLiteralType ''NumericLiteral'']) []
        ErrorCapturer False \<lparr>aliasMap = [], errors = []\<rparr>
      = Some (Throws UnsupportedTypeAnnotationParserError \<lparr>aliasMap = [], errors = []\<rparr>)"
  using union_rejected_when_not_cxxOnly
          [where rs = "resolveTypeAnnotation 1"
             and node = "TSUnionType [TSLiteralType ''NumericLiteral'', TSLiteralType ''NumericLiteral'']"
             and types = "[]" and n = 0 and tp = ErrorCapturer
             and st = "\<lparr>aliasMap = [], errors = []\<rparr>"
             and ts = "[TSLiteralType ''NumericLiteral'', TSLiteralType ''NumericLiteral'']"]
  by (simp add: resolveTypeAnnotation_def isNullMarker_def)

text \<open>
  The union \<^verbatim>\<open>1 | 2\<close> with \<^verbatim>\<open>cxxOnly\<close> off: the error thrown is not an
  \<^verbatim>\<open>UnsupportedUnionTypeAnnotationParserError\<close>.
\<close>

theorem union_error_kind_counterexample:
  "translateTypeAnnotation (Suc 0) (resolveTypeAnnotation 1)
     (TSUnionType [TSLiteralType ''NumericLiteral'', TSLiteralType ''NumericLiteral'']) []
     ErrorCapturer False \<lparr>aliasMap = [], errors = []\<rparr>
     = Some (Throws UnsupportedTypeAnnotationParserError \<lparr>aliasMap = [], errors = []\<rparr>)
   \<and> UnsupportedTypeAnnotationParserError \<noteq> UnsupportedUnionTypeAnnotationParserError"
  by (simp add: resolveTypeAnnotation_def isNullMarker_def)

subsection \<open>Unions in C++-only modules\<close>

text \<open>The \<^verbatim>\<open>filter\<close> on \<^verbatim>\<open>indexOf\<close> keeps one of each value, the first.\<close>

lemma indexOf_less: "indexOf xs v = Some i \<Longrightarrow> i < length xs"
  by (induction xs arbitrary: i) (auto split: if_splits)

lemma indexOf_append:
  "indexOf (pre @ ys) v =
     (if v \<in> set pre then indexOf pre v
      else map_option (\<lambda>i. i + length pre) (indexOf ys v))"
proof (induction pre)
  case Nil
  show ?case by (simp add: option.map_ident)
next
  case (Cons p pre)
  then show ?case by (simp add: option.map_comp comp_def)
qed

lemma firstOccurrences_cong:
  "set seen = set seen' \<Longrightarrow> firstOccurrences seen xs = firstOccurrences seen' xs"
proof (induction xs arbitrary: seen seen')
  case Nil
  show ?case by simp
next
  case (Cons y ys)
  have "firstOccurrences (seen @ [y]) ys = firstOccurrences (seen' @ [y]) ys"
    by (rule Cons.IH) (simp add: Cons.prems)
  moreover have "firstOccurrences seen ys = firstOccurrences seen' ys"
    by (rule Cons.IH) (rule Cons.prems)
  ultimately show ?case using Cons.prems by simp
qed

lemma filter_enumerate_firstOccurrences:
  "map snd (filter (\<lambda>(index, v). indexOf (pre @ xs) v = Some index) (enumerate (length pre) xs))
     = firstOccurrences pre xs"
proof (induction xs arbitrary: pre)
  case Nil
  show ?case by simp
next
  case (Cons x xs)
  have step: "map snd (filter (\<lambda>(index, v). indexOf ((pre @ [x]) @ xs) v = Some index)
                 (enumerate (length (pre @ [x])) xs)) = firstOccurrences (pre @ [x]) xs"
    by (rule Cons.IH)
  show ?case
  proof (cases "x \<in> set pre")
    case True
    then have "indexOf (pre @ x # xs) x \<noteq> Some (length pre)"
      using indexOf_less [of pre x "length pre"] by (auto simp: indexOf_append)
    moreover have "firstOccurrences pre xs = firstOccurrences (pre @ [x]) xs"
      using True by (intro firstOccurrences_cong) auto
    ultimately show ?thesis using step True by simp
  next
    case False
    then have "indexOf (pre @ x # xs) x = Some (length pre)"
      by (simp add: indexOf_append)
    then show ?thesis using step False by simp
  qed
qed

lemma filterFirstOccurrences_eq: "filterFirstOccurrences xs = firstOccurrences [] xs"
  using filter_enumerate_firstOccurrences [of "[]" xs]
  by (simp add: filterFirstOccurrences_def)

lemma set_firstOccurrences: "set (firstOccurrences seen xs) = set xs - set seen"
  by (induction xs arbitrary: seen) auto

lemma distinct_firstOccurrences: "distinct (firstOccurrences seen xs)"
  by (induction xs arbitrary: seen) (auto simp: set_firstOccurrences)

lemma length_filterFirstOccurrences: "length (filterFirstOccurrences xs) = card (set xs)"
  using distinct_card [OF distinct_firstOccurrences, of "[]" xs]
  by (simp add: filterFirstOccurrences_eq set_firstOccurrences)

lemma filterFirstOccurrences_Cons:
  "filterFirstOccurrences (x # xs) = x # firstOccurrences [x] xs"
  by (simp add: filterFirstOccurrences_eq)

lemma replace_NumericLiteral:
  "replace ''StringLiteral'' ''StringTypeAnnotation''
     (replace ''NumericLiteral'' ''NumberTypeAnnotation'' ''NumericLiteral'') = ''NumberTypeAnnotation''"
  by simp

lemma replace_StringLiteral:
  "replace ''StringLiteral'' ''StringTypeAnnotation''
     (replace ''NumericLiteral'' ''NumberTypeAnnotation'' ''StringLiteral'') = ''StringTypeAnnotation''"
  by simp

lemma unionMemberType_normalizedKind:
  assumes "\<forall>ty. item = TSLiteralType ty \<longrightarrow> ty = ''NumericLiteral'' \<or> ty = ''StringLiteral''"
  shows "unionMemberType item = normalizedKind item"
proof (cases item)
  case (TSLiteralType ty)
  with assms have "ty = ''NumericLiteral'' \<or> ty = ''StringLiteral''" by simp
  then show ?thesis
  proof
    assume "ty = ''NumericLiteral''"
    then show ?thesis
      unfolding unionMemberType_def normalizedKind_def TSLiteralType
      by (simp only: tsnode.case replace_NumericLiteral) simp
  next
    assume "ty = ''StringLiteral''"
    then show ?thesis
      unfolding unionMemberType_def normalizedKind_def TSLiteralType
      by (simp only: tsnode.case replace_StringLiteral) simp
  qed
qed (simp_all add: unionMemberType_def normalizedKind_def)

text \<open>
  C5, as the code has it: in a C++-only module, a node that resolves to a union whose
  literal members are all numeric or string literals has each member's kind normalized
  (numeric literal to the number kind, string literal to the string kind, a member that
  is not a literal to the object kind); if more than one distinct kind remains the union
  is rejected with an \<^verbatim>\<open>UnsupportedUnionTypeAnnotationParserError\<close>, otherwise the
  result is a union annotation carrying the one kind.
\<close>

theorem cxxOnly_union_of_number_string_and_object_members:
  assumes res: "rs node types = Some r" and un: "typeAnnotation r = TSUnionType ts"
    and nonempty: "ts \<noteq> []"
    and lits: "\<forall>item \<in> set ts. \<forall>ty. item = TSLiteralType ty
                 \<longrightarrow> ty = ''NumericLiteral'' \<or> ty = ''StringLiteral''"
  shows "translateTypeAnnotation (Suc n) rs node types tp True st =
           Some (if card (set (map normalizedKind ts)) > 1
                 then Throws UnsupportedUnionTypeAnnotationParserError st
                 else Returns (wrapNullable (nullable r)
                                 (UnionTypeAnnotation (Some (normalizedKind (hd ts))))) st)"
proof -
  have kinds: "map unionMemberType ts = map normalizedKind ts"
    using lits by (simp add: unionMemberType_normalizedKind)
  obtain t rest where ts: "ts = t # rest"
    using nonempty by (cases ts) auto
  have "translateUnion ts (nullable r) =
          (if card (set (map normalizedKind ts)) > 1
           then Inl UnsupportedUnionTypeAnnotationParserError
           else Inr (wrapNullable (nullable r)
                       (UnionTypeAnnotation (Some (normalizedKind (hd ts))))))"
    unfolding translateUnion_def kinds Let_def length_filterFirstOccurrences
    by (simp add: ts filterFirstOccurrences_Cons)
  then show ?thesis
    using res un by (simp add: settle_def)
qed

theorem cxxOnly_union_of_number_string_and_object_members_witness:
  "resolveTypeAnnotation 1
     (TSUnionType [TSLiteralType ''NumericLiteral'', TSLiteralType ''NumericLiteral'']) []
     = Some \<lparr>nullable = False,
             typeAnnotation =
               TSUnionType [TSLiteralType ''NumericLiteral'', TSLiteralType ''NumericLiteral''],
             typeAliasResolutionStatus = None\<rparr>
   \<and> translateTypeAnnotation (Suc 0) (resolveTypeAnnotation 1)
        (TSUnionType [TSLiteralType ''NumericLiteral'', TSLiteralType ''NumericLiteral'']) []
        ErrorCapturer True \<lparr>aliasMap = [], errors = []\<rparr>
      = Some (Returns (Nullable False (UnionTypeAnnotation (Some ''NumberTypeAnnotation'')))
                \<lparr>aliasMap = [], errors = []\<rparr>)"
  using cxxOnly_union_of_number_string_and_object_members
          [where rs = "resolveTypeAnnotation 1"
             and node = "TSUnionType [TSLiteralType ''NumericLiteral'', TSLiteralType ''NumericLiteral'']"
             and types = "[]" and n = 0 and tp = ErrorCapturer
             and st = "\<lparr>aliasMap = [], errors = []\<rparr>"
             and ts = "[TSLiteralType ''NumericLiteral'', TSLiteralType ''NumericLiteral'']"]
  by (simp add: resolveTypeAnnotation_def isNullMarker_def normalizedKind_def wrapNullable_def)

text \<open>
  The union \<^verbatim>\<open>true | false\<close> in a C++-only module: its members are literals that are
  neither numeric nor string, and the member kind of the result is the name of the
  literal's type, not the object kind.
\<close>

theorem cxxOnly_union_boolean_literal_counterexample:
  "translateTypeAnnotation (Suc 0) (resolveTypeAnnotation 1)
     (TSUnionType [TSLiteralType ''BooleanLiteral'', TSLiteralType ''BooleanLiteral'']) []
     ErrorCapturer True \<lparr>aliasMap = [], errors = []\<rparr>
     = Some (Returns (Nullable False (UnionTypeAnnotation (Some ''BooleanLiteral'')))
               \<lparr>aliasMap = [], errors = []\<rparr>)
   \<and> normalizedKind (TSLiteralType ''BooleanLiteral'') = ''ObjectTypeAnnotation''
   \<and> ''BooleanLiteral'' \<noteq> ''ObjectTypeAnnotation''"
  by (simp add: resolveTypeAnnotation_def isNullMarker_def normalizedKind_def wrapNullable_def
        settle_def translateUnion_def unionMemberType_def filterFirstOccurrences_def)

subsection \<open>References to enum declarations\<close>

lemma translateTypeAnnotation_reference:
  assumes "rs node types = Some r" and "typeAnnotation r = TSTypeReference name tps"
    and "name \<notin> set reservedTypeNames"
  shows "translateTypeAnnotation (Suc n) rs node types tp cxxOnly st
           = Some (settle (translateEnumReference types cxxOnly name (nullable r)) st)"
  using assms by (simp add: reservedTypeNames_def)

lemma translateEnumReference_cxxOnly:
  assumes "map_of types name = Some (TSEnumDeclaration (initializer # members))"
  shows "translateEnumReference types True name b =
           (case initializer of
              None \<Rightarrow> Inr (wrapNullable b (EnumDeclaration ''StringTypeAnnotation''))
            | Some t \<Rightarrow>
                if t = ''NumericLiteral'' then
                  Inr (wrapNullable b (EnumDeclaration ''NumberTypeAnnotation''))
                else if t = ''StringLiteral'' then
                  Inr (wrapNullable b (EnumDeclaration ''StringTypeAnnotation''))
                else translateEnumReference types True name b)"
proof (cases initializer)
  case None
  then show ?thesis using assms by (simp add: translateEnumReference_def)
next
  case (Some t)
  show ?thesis
  proof (cases "t = ''NumericLiteral''")
    case True
    then show ?thesis
      using assms Some replace_NumericLiteral
      by (simp add: translateEnumReference_def del: replace.simps)
  next
    case False
    note notNumeric = this
    show ?thesis
    proof (cases "t = ''StringLiteral''")
      case True
      then show ?thesis
        using assms Some replace_StringLiteral
        by (simp add: translateEnumReference_def del: replace.simps)
    next
      case False
      then show ?thesis using Some notNumeric by simp
    qed
  qed
qed

text \<open>
  C10: in a C++-only module, a reference that reaches the \<^verbatim>\<open>default\<close> arm and names an
  enum declaration whose first member has no initializer translates to an enum annotation
  with string members, in the state as it was (no error thrown or captured); and an
  \<^verbatim>\<open>UnsupportedEnumDeclarationParserError\<close> is thrown only when the first member has an
  initializer that is neither a numeric nor a string literal.
\<close>

theorem enum_reference_in_cxxOnly_module:
  assumes res: "rs node types = Some r"
    and ref: "typeAnnotation r = TSTypeReference name tps"
    and notReserved: "name \<notin> set reservedTypeNames"
    and enum: "map_of types name = Some (TSEnumDeclaration (initializer # members))"
  shows "(initializer = None \<longrightarrow>
            translateTypeAnnotation (Suc n) rs node types tp True st
              = Some (Returns (wrapNullable (nullable r) (EnumDeclaration ''StringTypeAnnotation''))
                        st))
       \<and> (\<forall>st'. translateTypeAnnotation (Suc n) rs node types tp True st
                   = Some (Throws UnsupportedEnumDeclarationParserError st') \<longrightarrow>
                (\<exists>t. initializer = Some t \<and> t \<noteq> ''NumericLiteral'' \<and> t \<noteq> ''StringLiteral''))"
proof -
  have tr: "translateTypeAnnotation (Suc n) rs node types tp True st
              = Some (settle (translateEnumReference types True name (nullable r)) st)"
    using res ref notReserved by (rule translateTypeAnnotation_reference)
  note en = translateEnumReference_cxxOnly [OF enum, of "nullable r"]
  show ?thesis
    unfolding tr
    by (subst (1 2) en) (auto simp: settle_def split: option.splits)
qed

theorem enum_reference_in_cxxOnly_module_witness:
  "resolveTypeAnnotation 1 (TSTypeReference ''Color'' None)
       [(''Color'', TSEnumDeclaration [None, None])]
     = Some \<lparr>nullable = False, typeAnnotation = TSTypeReference ''Color'' None,
             typeAliasResolutionStatus = Some ''Color''\<rparr>
   \<and> ''Color'' \<notin> set reservedTypeNames
   \<and> map_of [(''Color'', TSEnumDeclaration [None, None])] ''Color''
       = Some (TSEnumDeclaration (None # [None]))
   \<and> translateTypeAnnotation (Suc 0) (resolveTypeAnnotation 1) (TSTypeReference ''Color'' None)
        [(''Color'', TSEnumDeclaration [None, None])] ErrorCapturer True
        \<lparr>aliasMap = [], errors = []\<rparr>
      = Some (Returns (Nullable False (EnumDeclaration ''StringTypeAnnotation''))
                \<lparr>aliasMap = [], errors = []\<rparr>)
   \<and> translateTypeAnnotation (Suc 0) (resolveTypeAnnotation 1) (TSTypeReference ''Color'' None)
        [(''Color'', TSEnumDeclaration [Some ''TemplateLiteral''])] ErrorCapturer True
        \<lparr>aliasMap = [], errors = []\<rparr>
      = Some (Throws UnsupportedEnumDeclarationParserError \<lparr>aliasMap = [], errors = []\<rparr>)
   \<and> (\<exists>t. Some ''TemplateLiteral'' = Some t \<and> t \<noteq> ''NumericLiteral'' \<and> t \<noteq> ''StringLiteral'')"
  using enum_reference_in_cxxOnly_module
          [where rs = "resolveTypeAnnotation 1" and node = "TSTypeReference ''Color'' None"
             and types = "[(''Color'', TSEnumDeclaration [None, None])]"
             and name = "''Color''" and tps = None and initializer = None and members = "[None]"
             and n = 0 and tp = ErrorCapturer and st = "\<lparr>aliasMap = [], errors = []\<rparr>"]
        enum_reference_in_cxxOnly_module
          [where rs = "resolveTypeAnnotation 1" and node = "TSTypeReference ''Color'' None"
             and types = "[(''Color'', TSEnumDeclaration [Some ''TemplateLiteral''])]"
             and name = "''Color''" and tps = None and initializer = "Some ''TemplateLiteral''"
             and members = "[]"
             and n = 0 and tp = ErrorCapturer and st = "\<lparr>aliasMap = [], errors = []\<rparr>"]
  by (simp add: resolveTypeAnnotation_def reservedTypeNames_def wrapNullable_def settle_def
        translateEnumReference_def)

subsection \<open>Function return types\<close>

text \<open>
  C7: when the parameters of a function-shaped node are through and its return type
  translates to a function annotation, \<^verbatim>\<open>translateFunctionTypeAnnotation\<close> returns the
  function annotation if the module is C++-only and throws an
  \<^verbatim>\<open>UnsupportedFunctionReturnTypeAnnotationParserError\<close> if it is not.
\<close>

theorem function_return_type_function:
  assumes params: "translateParams n rs parameters types tp cxxOnly st = Some (Returns ps st1)"
    and ret: "translateTypeAnnotation n rs a types tp cxxOnly st1 = Some (Returns translated st2)"
    and fn: "isFunctionTypeAnnotation (unwrapped translated)"
  shows "translateFunctionTypeAnnotation n rs parameters (Some a) types tp cxxOnly st =
           Some (if cxxOnly
                 then Returns (FunctionTypeAnnotation
                                 (wrapNullable (isNullable translated) (unwrapped translated)) ps)
                        st2
                 else Throws UnsupportedFunctionReturnTypeAnnotationParserError st2)"
  using assms by (simp add: functionOf_def unwrapNullable_def settle_def)

theorem function_return_type_function_witness:
  "translateParams 2 (resolveTypeAnnotation 1) [] [] ErrorCapturer True
       \<lparr>aliasMap = [], errors = []\<rparr>
     = Some (Returns [] \<lparr>aliasMap = [], errors = []\<rparr>)
   \<and> translateTypeAnnotation 2 (resolveTypeAnnotation 1)
         (TSFunctionType [] (Some TSVoidKeyword)) [] ErrorCapturer True
         \<lparr>aliasMap = [], errors = []\<rparr>
     = Some (Returns (Nullable False
                        (FunctionTypeAnnotation (Nullable False VoidTypeAnnotation) []))
               \<lparr>aliasMap = [], errors = []\<rparr>)
   \<and> translateFunctionTypeAnnotation 2 (resolveTypeAnnotation 1) []
         (Some (TSFunctionType [] (Some TSVoidKeyword))) [] ErrorCapturer True
         \<lparr>aliasMap = [], errors = []\<rparr>
     = Some (Returns (FunctionTypeAnnotation
                        (Nullable False
                           (FunctionTypeAnnotation (Nullable False VoidTypeAnnotation) [])) [])
               \<lparr>aliasMap = [], errors = []\<rparr>)
   \<and> translateFunctionTypeAnnotation 2 (resolveTypeAnnotation 1) []
         (Some (TSFunctionType [] (Some TSVoidKeyword))) [] ErrorCapturer False
         \<lparr>aliasMap = [], errors = []\<rparr>
     = Some (Throws UnsupportedFunctionReturnTypeAnnotationParserError
               \<lparr>aliasMap = [], errors = []\<rparr>)"
proof -
  let ?st = "\<lparr>aliasMap = [], errors = []\<rparr>"
  let ?f = "TSFunctionType [] (Some TSVoidKeyword)"
  let ?t = "Nullable False (FunctionTypeAnnotation (Nullable False VoidTypeAnnotation) [])"
  have ev: "translateTypeAnnotation 2 (resolveTypeAnnotation 1) ?f [] ErrorCapturer c ?st
              = Some (Returns ?t ?st)" for c
    by (simp add: numeral_2_eq_2 resolveTypeAnnotation_def emitVoid_def wrapNullable_def
          functionOf_def unwrapNullable_def settle_def isFunctionTypeAnnotation_def)
  have ps: "translateParams 2 (resolveTypeAnnotation 1) [] [] ErrorCapturer c ?st
              = Some (Returns [] ?st)" for c
    by simp
  have isf: "isFunctionTypeAnnotation (unwrapped ?t)"
    by (simp add: isFunctionTypeAnnotation_def)
  show ?thesis
    using function_return_type_function [OF ps [of True] ev [of True] isf]
          function_return_type_function [OF ps [of False] ev [of False] isf] ev [of True]
    by (simp add: wrapNullable_def)
qed

subsection \<open>Platform suffixes\<close>

lemma endsWith_last: "endsWith name s \<Longrightarrow> s \<noteq> [] \<Longrightarrow> last name = last s"
  by (auto simp: endsWith_def suffix_def)

lemma endsWith_exclusive:
  "endsWith name ''Android'' \<Longrightarrow> \<not> endsWith name ''IOS''"
  "endsWith name ''Android'' \<Longrightarrow> \<not> endsWith name ''Cxx''"
  "endsWith name ''IOS'' \<Longrightarrow> \<not> endsWith name ''Cxx''"
  by (auto dest!: endsWith_last)

lemma validateName_excludedFor:
  "validateName (c, ex) name = (c \<or> endsWith name ''Cxx'', ex @ excludedFor name)"
  using endsWith_exclusive [of name]
  by (auto simp: validateName_def excludedFor_def)

lemma foldl_validateName:
  "foldl validateName (c, ex) names
     = (c \<or> nativeOnlyFor names, ex @ concat (map excludedFor names))"
  by (induction names arbitrary: c ex)
     (auto simp: validateName_excludedFor nativeOnlyFor_def)

lemma validateNames_eq:
  "validateNames names = (nativeOnlyFor names, concat (map excludedFor names))"
  by (simp add: validateNames_def foldl_validateName)

lemma foldl_reduceStep_names:
  "moduleNames (foldl reduceStep s pairs) = moduleNames s
   \<and> excludedPlatforms (foldl reduceStep s pairs) = excludedPlatforms s"
  by (induction pairs arbitrary: s) (auto simp: reduceStep_def split: prod.splits)

lemma reduceProperties_names:
  "moduleNames (reduceProperties names excluded pairs) = names"
  "excludedPlatforms (reduceProperties names excluded pairs)
     = (if excluded \<noteq> [] then Some excluded else None)"
  by (simp_all add: reduceProperties_def foldl_reduceStep_names)

lemma buildModuleSchema_Inr:
  assumes "buildModuleSchema n rs hasteModuleName tree tp errs = Some (Inr schema, errs')"
  shows "\<exists>moduleSpec moduleName st' pairs.
           filterModuleInterfaces (map snd (astTypes tree)) = Inr [moduleSpec]
         \<and> idName moduleSpec = ''Spec''
         \<and> tryParse tp (settle (parseModuleName (astRegistryCalls tree))
                           \<lparr>aliasMap = [], errors = errs\<rparr>) = Returns moduleName st'
         \<and> buildProperties n rs (filter isSignature (body moduleSpec)) (astTypes tree) tp
              (nativeOnlyFor ((case moduleName of None \<Rightarrow> [] | Some m \<Rightarrow> [m]) @ [hasteModuleName]))
              (errors st') = Some (Inr pairs, errs')
         \<and> schema = reduceProperties (case moduleName of None \<Rightarrow> [] | Some m \<Rightarrow> [m])
                      (concat (map excludedFor
                         ((case moduleName of None \<Rightarrow> [] | Some m \<Rightarrow> [m]) @ [hasteModuleName])))
                      pairs"
  using assms
  unfolding buildModuleSchema_def Let_def validateNames_eq
  by (auto split: list.splits if_splits result.splits option.splits sum.splits prod.splits)

lemma endsWith_simps:
  "endsWith name s = prefix (rev s) (rev name)"
  by (simp add: endsWith_def suffix_to_prefix)

text \<open>
  C9: the C++-only flag and the excluded platforms come from the suffix of each of the
  names to validate, the registered module name if there is one and then the name of the
  file, each checked on its own and the exclusions appended in that order; the members
  are built under that flag, and the schema has no \<^verbatim>\<open>excludedPlatforms\<close> when nothing
  was excluded.
\<close>

theorem platform_suffixes:
  "validateNames names = (nativeOnlyFor names, concat (map excludedFor names))
   \<and> (buildModuleSchema n rs hasteModuleName tree tp errs = Some (Inr schema, errs') \<longrightarrow>
        excludedPlatforms schema
          = (let excluded = concat (map excludedFor (moduleNames schema @ [hasteModuleName]))
             in if excluded = [] then None else Some excluded)
        \<and> (\<exists>moduleSpec errs0 pairs.
              filterModuleInterfaces (map snd (astTypes tree)) = Inr [moduleSpec]
              \<and> buildProperties n rs (filter isSignature (body moduleSpec)) (astTypes tree) tp
                (nativeOnlyFor (moduleNames schema @ [hasteModuleName])) errs0
                = Some (Inr pairs, errs')))"
proof (intro conjI impI)
  show "validateNames names = (nativeOnlyFor names, concat (map excludedFor names))"
    by (rule validateNames_eq)
next
  assume ok: "buildModuleSchema n rs hasteModuleName tree tp errs = Some (Inr schema, errs')"
  from buildModuleSchema_Inr [OF ok]
  obtain moduleSpec moduleName and st' :: pstate and pairs where
    ms: "filterModuleInterfaces (map snd (astTypes tree)) = Inr [moduleSpec]" and
    bp: "buildProperties n rs (filter isSignature (body moduleSpec)) (astTypes tree) tp
           (nativeOnlyFor ((case moduleName of None \<Rightarrow> [] | Some m \<Rightarrow> [m]) @ [hasteModuleName]))
           (errors st') = Some (Inr pairs, errs')"
    and sc: "schema = reduceProperties (case moduleName of None \<Rightarrow> [] | Some m \<Rightarrow> [m])
               (concat (map excludedFor
                  ((case moduleName of None \<Rightarrow> [] | Some m \<Rightarrow> [m]) @ [hasteModuleName])))
               pairs"
    by blast
  have names: "moduleNames schema = (case moduleName of None \<Rightarrow> [] | Some m \<Rightarrow> [m])"
    unfolding sc by (rule reduceProperties_names)
  show "excludedPlatforms schema
          = (let excluded = concat (map excludedFor (moduleNames schema @ [hasteModuleName]))
             in if excluded = [] then None else Some excluded)"
    unfolding names unfolding sc reduceProperties_names Let_def by simp
  show "\<exists>moduleSpec errs0 pairs.
          filterModuleInterfaces (map snd (astTypes tree)) = Inr [moduleSpec]
          \<and> buildProperties n rs (filter isSignature (body moduleSpec)) (astTypes tree) tp
            (nativeOnlyFor (moduleNames schema @ [hasteModuleName])) errs0
            = Some (Inr pairs, errs')"
    using ms bp unfolding names by blast
qed

theorem platform_suffixes_witness:
  "buildModuleSchema 0 (resolveTypeAnnotation 1) ''NativeFooAndroid''
     \<lparr>astTypes = [(''Spec'', specInterface [])], astRegistryCalls = [registryCall ''FooCxx'']\<rparr>
     ErrorCapturer []
     = Some (Inr \<lparr>aliases = [], properties = [], moduleNames = [''FooCxx''],
                  excludedPlatforms = Some [''iOS'', ''android'', ''iOS'']\<rparr>, [])
   \<and> validateNames [''FooCxx'', ''NativeFooAndroid''] = (True, [''iOS'', ''android'', ''iOS''])
   \<and> validateNames [''FooIOS''] = (False, [''android''])
   \<and> buildModuleSchema 0 (resolveTypeAnnotation 1) ''NativeFoo''
     \<lparr>astTypes = [(''Spec'', specInterface [])], astRegistryCalls = [registryCall ''Foo'']\<rparr>
     ErrorCapturer []
     = Some (Inr \<lparr>aliases = [], properties = [], moduleNames = [''Foo''],
                  excludedPlatforms = None\<rparr>, [])"
proof -
  have b1: "buildModuleSchema 0 (resolveTypeAnnotation 1) ''NativeFooAndroid''
     \<lparr>astTypes = [(''Spec'', specInterface [])], astRegistryCalls = [registryCall ''FooCxx'']\<rparr>
     ErrorCapturer []
     = Some (Inr \<lparr>aliases = [], properties = [], moduleNames = [''FooCxx''],
                  excludedPlatforms = Some [''iOS'', ''android'', ''iOS'']\<rparr>, [])"
    by (simp add: buildModuleSchema_def specInterface_def registryCall_def isModuleInterface_def
          idName_def body_def parseModuleName_def settle_def tryParse_def validateNames_eq
          nativeOnlyFor_def excludedFor_def endsWith_simps reduceProperties_def
          List.map_filter_def isSignature_def)
  have b2: "buildModuleSchema 0 (resolveTypeAnnotation 1) ''NativeFoo''
     \<lparr>astTypes = [(''Spec'', specInterface [])], astRegistryCalls = [registryCall ''Foo'']\<rparr>
     ErrorCapturer []
     = Some (Inr \<lparr>aliases = [], properties = [], moduleNames = [''Foo''],
                  excludedPlatforms = None\<rparr>, [])"
    by (simp add: buildModuleSchema_def specInterface_def registryCall_def isModuleInterface_def
          idName_def body_def parseModuleName_def settle_def tryParse_def validateNames_eq
          nativeOnlyFor_def excludedFor_def endsWith_simps reduceProperties_def
          List.map_filter_def isSignature_def)
  show ?thesis
    using platform_suffixes [where names = "[''FooCxx'', ''NativeFooAndroid'']"
            and n = 0 and rs = "resolveTypeAnnotation 1" and hasteModuleName = "''NativeFooAndroid''"
            and tree = "\<lparr>astTypes = [(''Spec'', specInterface [])],
                          astRegistryCalls = [registryCall ''FooCxx'']\<rparr>"
            and tp = ErrorCapturer and errs = "[]" and errs' = "[]"
            and schema = "\<lparr>aliases = [], properties = [], moduleNames = [''FooCxx''],
                  excludedPlatforms = Some [''iOS'', ''android'', ''iOS'']\<rparr>"]
          platform_suffixes [where names = "[''FooIOS'']"
            and n = 0 and rs = "resolveTypeAnnotation 1" and hasteModuleName = "''NativeFoo''"
            and tree = "\<lparr>astTypes = [(''Spec'', specInterface [])],
                          astRegistryCalls = [registryCall ''Foo'']\<rparr>"
            and tp = ErrorCapturer and errs = "[]" and errs' = "[]"
            and schema = "\<lparr>aliases = [], properties = [], moduleNames = [''Foo''],
                  excludedPlatforms = None\<rparr>"]
          b1 b2
    by (simp add: nativeOnlyFor_def excludedFor_def endsWith_simps)
qed

subsection \<open>Finding the module interface\<close>

lemma isModuleInterface_True:
  "isModuleInterface node = Inr True \<longleftrightarrow>
     (\<exists>name members.
        node = TSInterfaceDeclaration name
                 (Some [(''TSExpressionWithTypeArguments'', Some ''TurboModule'')]) members)"
  by (auto simp: isModuleInterface_def split: decl.splits option.splits list.splits)

lemma isModuleInterface_throws:
  "isModuleInterface node = Inl e \<longleftrightarrow>
     e = JSTypeError \<and> (\<exists>name members. node = TSInterfaceDeclaration name None members)"
  by (auto simp: isModuleInterface_def split: decl.splits option.splits list.splits)

lemma filterModuleInterfaces_throws:
  "(\<exists>e. filterModuleInterfaces nodes = Inl e) \<longleftrightarrow>
     (\<exists>name members. TSInterfaceDeclaration name None members \<in> set nodes)"
proof (induction nodes)
  case Nil
  show ?case by simp
next
  case (Cons node rest)
  show ?case
  proof (cases "isModuleInterface node")
    case (Inl e)
    then show ?thesis using isModuleInterface_throws [of node e] by auto
  next
    case (Inr keep)
    then have "\<not> (\<exists>name members. node = TSInterfaceDeclaration name None members)"
      using isModuleInterface_throws [of node JSTypeError] by auto
    then show ?thesis using Inr Cons.IH
      by (auto split: sum.splits)
  qed
qed

lemma filterModuleInterfaces_kept:
  "filterModuleInterfaces nodes = Inr kept \<Longrightarrow>
     kept = filter (\<lambda>node. isModuleInterface node = Inr True) nodes"
  by (induction nodes arbitrary: kept) (auto split: sum.splits if_splits)

text \<open>
  Where every interface of the file has an \<^verbatim>\<open>extends\<close> clause, the filter keeps the
  interfaces whose one entry is \<^verbatim>\<open>TurboModule\<close>, and \<^verbatim>\<open>buildModuleSchema\<close> throws a
  \<^verbatim>\<open>ModuleInterfaceNotFoundParserError\<close> for none of them, a
  \<^verbatim>\<open>MoreThanOneModuleInterfaceParserError\<close> for more than one, a
  \<^verbatim>\<open>MisnamedModuleInterfaceParserError\<close> for one that is not named \<^verbatim>\<open>Spec\<close>; the
  error is thrown, not captured, and there is no schema.
\<close>

lemma module_interface_faults:
  assumes "filterModuleInterfaces (map snd (astTypes tree)) = Inr kept"
  shows "kept = filter (\<lambda>node. isModuleInterface node = Inr True) (map snd (astTypes tree))"
    and "kept = [] \<Longrightarrow>
           buildModuleSchema n rs hasteModuleName tree tp errs
             = Some (Inl ModuleInterfaceNotFoundParserError, errs)"
    and "length kept > 1 \<Longrightarrow>
           buildModuleSchema n rs hasteModuleName tree tp errs
             = Some (Inl MoreThanOneModuleInterfaceParserError, errs)"
    and "kept = [moduleSpec] \<Longrightarrow> idName moduleSpec \<noteq> ''Spec'' \<Longrightarrow>
           buildModuleSchema n rs hasteModuleName tree tp errs
             = Some (Inl MisnamedModuleInterfaceParserError, errs)"
proof -
  show "kept = filter (\<lambda>node. isModuleInterface node = Inr True) (map snd (astTypes tree))"
    using assms by (rule filterModuleInterfaces_kept)
  show "kept = [] \<Longrightarrow>
           buildModuleSchema n rs hasteModuleName tree tp errs
             = Some (Inl ModuleInterfaceNotFoundParserError, errs)"
    using assms by (simp add: buildModuleSchema_def)
  show "length kept > 1 \<Longrightarrow>
           buildModuleSchema n rs hasteModuleName tree tp errs
             = Some (Inl MoreThanOneModuleInterfaceParserError, errs)"
    using assms by (cases kept) (auto simp: buildModuleSchema_def neq_Nil_conv)
  show "kept = [moduleSpec] \<Longrightarrow> idName moduleSpec \<noteq> ''Spec'' \<Longrightarrow>
           buildModuleSchema n rs hasteModuleName tree tp errs
             = Some (Inl MisnamedModuleInterfaceParserError, errs)"
    using assms by (simp add: buildModuleSchema_def)
qed

text \<open>
  C8 fails on the code at a file that declares an interface without \<^verbatim>\<open>extends\<close> clause.
  The claim has such an interface left out by the filter: the file whose only
  declaration is \<^verbatim>\<open>interface Foo {}\<close> has no module interface and is to end in a
  \<^verbatim>\<open>ModuleInterfaceNotFoundParserError\<close>, and the file that declares it beside the
  module interface \<^verbatim>\<open>Spec\<close> is to go on with \<^verbatim>\<open>Spec\<close>. In the code
  \<^verbatim>\<open>isModuleInterface\<close> throws on the interface, and \<^verbatim>\<open>buildModuleSchema\<close> ends in
  JavaScript's error for both files.
\<close>

theorem interface_without_extends_throws:
  "buildModuleSchema 0 (resolveTypeAnnotation 1) ''NativeFoo''
     \<lparr>astTypes = [(''Foo'', TSInterfaceDeclaration ''Foo'' None [])],
      astRegistryCalls = []\<rparr> ErrorCapturer []
     = Some (Inl JSTypeError, [])
   \<and> buildModuleSchema 0 (resolveTypeAnnotation 1) ''NativeFoo''
     \<lparr>astTypes = [(''Foo'', TSInterfaceDeclaration ''Foo'' None []),
                  (''Spec'', specInterface [])],
      astRegistryCalls = [registryCall ''Foo'']\<rparr> ErrorCapturer []
     = Some (Inl JSTypeError, [])
   \<and> JSTypeError \<noteq> ModuleInterfaceNotFoundParserError"
  by (simp add: buildModuleSchema_def isModuleInterface_def specInterface_def)

subsection \<open>Arrays of unsupported elements\<close>

text \<open>
  Under \<^verbatim>\<open>nullGuard\<close> nothing is captured: a translation leaves the list of captured
  errors as it was.
\<close>

lemma stateOf_settle: "stateOf (settle x st) = st"
  by (cases x) (simp_all add: settle_def)

lemma tryParse_NullGuard:
  "tryParse NullGuard r = (case r of Returns v st \<Rightarrow> Returns (Some v) st | Throws e st \<Rightarrow> Throws e st)"
  by (simp add: tryParse_def split: result.splits)

lemma quiet_simps [simp]:
  "quiet st None"
  "quiet st (Some (Returns v st')) = (errors st' = errors st)"
  "quiet st (Some (Throws e st')) = (errors st' = errors st)"
  "quiet st (Some (settle x st')) = (errors st' = errors st)"
  by (simp_all add: quiet_def stateOf_settle)

lemma quiet_array:
  assumes "\<And>node st. quiet st (translateTypeAnnotation n rs node types NullGuard cxxOnly st)"
  shows "quiet st (translateArrayTypeAnnotation n rs types cxxOnly el nb st)"
  using assms [of st el]
  by (auto split: option.splits result.splits sum.splits)

lemma quiet_objectProperty:
  assumes "\<And>node st. quiet st (translateTypeAnnotation n rs node types NullGuard cxxOnly st)"
  shows "quiet st (translateObjectProperty n rs property types NullGuard cxxOnly st)"
proof (cases property)
  case (TSPropertySignature key optional annotated)
  show ?thesis
  proof (cases annotated)
    case None
    then show ?thesis using TSPropertySignature by simp
  next
    case (Some a)
    then show ?thesis using TSPropertySignature assms [of st a]
      by (auto simp: stateOf_settle split: option.splits result.splits)
  qed
qed simp_all

lemma quiet_param:
  assumes "\<And>node st. quiet st (translateTypeAnnotation n rs node types NullGuard cxxOnly st)"
  shows "quiet st (translateParam n rs param types NullGuard cxxOnly st)"
proof (cases param)
  case (TSParam paramName optional annotated)
  show ?thesis
  proof (cases annotated)
    case None
    then show ?thesis using TSParam by simp
  next
    case (Some a)
    then show ?thesis using TSParam assms [of st a]
      by (auto simp: stateOf_settle split: option.splits result.splits)
  qed
qed

lemma quiet_objectProperties:
  assumes "\<And>node st. quiet st (translateTypeAnnotation n rs node types NullGuard cxxOnly st)"
  shows "quiet st (translateObjectProperties n rs members types NullGuard cxxOnly st)"
proof (induction members arbitrary: st)
  case Nil
  show ?case by simp
next
  case (Cons property rest)
  show ?case
  proof (cases "translateObjectProperty n rs property types NullGuard cxxOnly st")
    case None
    then show ?thesis by (simp del: translateObjectProperty.simps)
  next
    case (Some r)
    note one = quiet_objectProperty [OF assms, of st property]
    show ?thesis
    proof (cases r)
      case (Throws e st')
      then show ?thesis using Some one
        by (simp add: tryParse_NullGuard del: translateObjectProperty.simps)
    next
      case (Returns v st')
      then have st': "errors st' = errors st" using Some one by simp
      show ?thesis
        using Some Returns st' Cons.IH [of st']
        by (auto simp: tryParse_NullGuard quiet_def simp del: translateObjectProperty.simps
                 split: option.splits result.splits)
    qed
  qed
qed

lemma quiet_params:
  assumes "\<And>node st. quiet st (translateTypeAnnotation n rs node types NullGuard cxxOnly st)"
  shows "quiet st (translateParams n rs ps types NullGuard cxxOnly st)"
proof (induction ps arbitrary: st)
  case Nil
  show ?case by simp
next
  case (Cons p rest)
  show ?case
  proof (cases "translateParam n rs p types NullGuard cxxOnly st")
    case None
    then show ?thesis by (simp del: translateParam.simps)
  next
    case (Some r)
    note one = quiet_param [OF assms, of st p]
    show ?thesis
    proof (cases r)
      case (Throws e st')
      then show ?thesis using Some one
        by (simp add: tryParse_NullGuard del: translateParam.simps)
    next
      case (Returns v st')
      then have st': "errors st' = errors st" using Some one by simp
      show ?thesis
        using Some Returns st' Cons.IH [of st']
        by (auto simp: tryParse_NullGuard quiet_def simp del: translateParam.simps
                 split: option.splits result.splits)
    qed
  qed
qed

lemma quiet_function:
  assumes "\<And>node st. quiet st (translateTypeAnnotation n rs node types NullGuard cxxOnly st)"
  shows "quiet st (translateFunctionTypeAnnotation n rs ps ret types NullGuard cxxOnly st)"
proof (cases "translateParams n rs ps types NullGuard cxxOnly st")
  case None
  then show ?thesis by simp
next
  case (Some r)
  show ?thesis
  proof (cases r)
    case (Throws e st')
    then show ?thesis using Some quiet_params [OF assms, of st ps] by simp
  next
    case (Returns params st')
    then have st': "errors st' = errors st"
      using Some quiet_params [OF assms, of st ps] by simp
    show ?thesis
    proof (cases ret)
      case None
      then show ?thesis using Some Returns st' by simp
    next
      case (Some a)
      then show ?thesis using \<open>translateParams n rs ps types NullGuard cxxOnly st = Some r\<close>
          Returns st' assms [of st' a]
        by (auto simp: stateOf_settle quiet_def split: option.splits result.splits)
    qed
  qed
qed

lemma quiet_translateTypeAnnotation:
  "quiet st (translateTypeAnnotation n rs node types NullGuard cxxOnly st)"
proof (induction n arbitrary: node st)
  case 0
  show ?case by simp
next
  case (Suc n)
  note arr = quiet_array [of n rs types cxxOnly, OF Suc.IH]
  note obj = quiet_objectProperties [of n rs types cxxOnly, OF Suc.IH]
  note fn = quiet_function [of n rs types cxxOnly, OF Suc.IH]
  show ?case
  proof (cases "rs node types")
    case None
    then show ?thesis by simp
  next
    case (Some r)
    show ?thesis
    proof (cases "typeAnnotation r")
      case (TSArrayType el)
      then show ?thesis using Some arr [of st el "nullable r"]
        by (simp del: translateArrayTypeAnnotation.simps)
    next
      case (TSTypeOperator op inner)
      then show ?thesis using Some arr [of st _ "nullable r"]
        by (cases inner) (simp_all del: translateArrayTypeAnnotation.simps)
    next
      case (TSTypeReference name tps)
      then show ?thesis using Some arr [of st _ "nullable r"]
        by (auto simp del: translateArrayTypeAnnotation.simps split: sum.splits)
    next
      case (TSTypeLiteral members)
      then show ?thesis using Some obj [of st members]
        by (auto simp: quiet_def split: option.splits result.splits prod.splits)
    next
      case (TSFunctionType ps ret)
      then show ?thesis using Some fn [of st ps ret]
        by (auto simp: quiet_def simp del: translateFunctionTypeAnnotation.simps
                 split: option.splits result.splits)
    qed (use Some in simp_all)
  qed
qed

text \<open>
  C3, as the code has it: when the element of an array translates to a void, promise or
  function annotation, the \<^verbatim>\<open>UnsupportedArrayElementTypeAnnotationParserError\<close> thrown
  is caught by the \<^verbatim>\<open>catch\<close> of \<^verbatim>\<open>translateArrayTypeAnnotation\<close>: the result is
  an array annotation without element type, and the list of captured errors is as it was.
\<close>

theorem array_of_unsupported_element:
  assumes el: "translateTypeAnnotation n rs tsElementType types NullGuard cxxOnly st
                 = Some (Returns translated st')"
    and kind: "unwrapped translated = VoidTypeAnnotation
               \<or> unwrapped translated = PromiseTypeAnnotation
               \<or> isFunctionTypeAnnotation (unwrapped translated)"
  shows "translateArrayTypeAnnotation n rs types cxxOnly tsElementType outerNullable st
           = Some (Returns (wrapNullable outerNullable (ArrayTypeAnnotation None)) st')
         \<and> errors st' = errors st"
proof
  have "arrayOfElement outerNullable translated
          = Inl UnsupportedArrayElementTypeAnnotationParserError"
    using kind by (auto simp: arrayOfElement_def unwrapNullable_def)
  then show "translateArrayTypeAnnotation n rs types cxxOnly tsElementType outerNullable st
           = Some (Returns (wrapNullable outerNullable (ArrayTypeAnnotation None)) st')"
    using el by simp
  show "errors st' = errors st"
    using quiet_translateTypeAnnotation [of st n rs tsElementType types cxxOnly] el by simp
qed

theorem array_of_unsupported_element_witness:
  "translateTypeAnnotation 1 (resolveTypeAnnotation 1) TSVoidKeyword [] NullGuard False
       \<lparr>aliasMap = [], errors = []\<rparr>
     = Some (Returns (Nullable False VoidTypeAnnotation) \<lparr>aliasMap = [], errors = []\<rparr>)
   \<and> translateArrayTypeAnnotation 1 (resolveTypeAnnotation 1) [] False TSVoidKeyword False
       \<lparr>aliasMap = [], errors = []\<rparr>
     = Some (Returns (Nullable False (ArrayTypeAnnotation None)) \<lparr>aliasMap = [], errors = []\<rparr>)"
proof -
  have el: "translateTypeAnnotation 1 (resolveTypeAnnotation 1) TSVoidKeyword [] NullGuard False
       \<lparr>aliasMap = [], errors = []\<rparr>
     = Some (Returns (Nullable False VoidTypeAnnotation) \<lparr>aliasMap = [], errors = []\<rparr>)"
    by (simp add: resolveTypeAnnotation_def emitVoid_def wrapNullable_def)
  have kind: "unwrapped (Nullable False VoidTypeAnnotation) = VoidTypeAnnotation
               \<or> unwrapped (Nullable False VoidTypeAnnotation) = PromiseTypeAnnotation
               \<or> isFunctionTypeAnnotation (unwrapped (Nullable False VoidTypeAnnotation))"
    by simp
  show ?thesis
    using array_of_unsupported_element [OF el kind, of False] el
    by (simp add: wrapNullable_def del: translateArrayTypeAnnotation.simps)
qed

text \<open>
  The module with the one method \<^verbatim>\<open>f(a: void[]): void\<close>: the parameter is there, an
  array without element type, and no error is captured.
\<close>

theorem array_of_void_counterexample:
  "buildModuleSchema 2 (resolveTypeAnnotation 1) ''NativeFoo''
     \<lparr>astTypes =
        [(''Spec'', specInterface
            [TSMethodSignature ''f'' False
               [TSParam ''a'' False (Some (TSArrayType TSVoidKeyword))] (Some TSVoidKeyword)])],
      astRegistryCalls = [registryCall ''Foo'']\<rparr>
     ErrorCapturer []
   = Some (Inr \<lparr>aliases = [],
                properties =
                  [NamedShape ''f'' False
                     (Nullable False
                        (FunctionTypeAnnotation (Nullable False VoidTypeAnnotation)
                           [NamedShape ''a'' False (Nullable False (ArrayTypeAnnotation None))]))],
                moduleNames = [''Foo''], excludedPlatforms = None\<rparr>,
           [])"
  by (simp add: buildModuleSchema_def specInterface_def registryCall_def isModuleInterface_def
        idName_def body_def parseModuleName_def settle_def tryParse_def validateNames_eq
        nativeOnlyFor_def excludedFor_def endsWith_simps reduceProperties_def reduceStep_def
        spread_def List.map_filter_def isSignature_def buildPropertySchema_def numeral_2_eq_2
        resolveTypeAnnotation_def emitVoid_def wrapNullable_def unwrapNullable_def
        arrayOfElement_def paramOf_def functionOf_def isFunctionTypeAnnotation_def)

subsection \<open>The parameters of a function\<close>







subsection \<open>The registration call\<close>

text \<open>Captured errors are never dropped: a translation only appends to them.\<close>

lemma grows_simps [simp]:
  "grows st None"
  "grows st (Some (Returns v st')) = prefix (errors st) (errors st')"
  "grows st (Some (Throws e st')) = prefix (errors st) (errors st')"
  "grows st (Some (settle x st')) = prefix (errors st) (errors st')"
  by (simp_all add: grows_def stateOf_settle)

lemma stateOf_tryParse:
  "prefix (errors (stateOf r)) (errors (stateOf (tryParse tp r)))"
  by (cases r; cases tp) (simp_all add: tryParse_def)

lemma grows_array:
  assumes "\<And>node tp st. grows st (translateTypeAnnotation n rs node types tp cxxOnly st)"
  shows "grows st (translateArrayTypeAnnotation n rs types cxxOnly el nb st)"
  using assms [of st el NullGuard]
  by (auto split: option.splits result.splits sum.splits)

lemma grows_objectProperty:
  assumes "\<And>node tp st. grows st (translateTypeAnnotation n rs node types tp cxxOnly st)"
  shows "grows st (translateObjectProperty n rs property types tp cxxOnly st)"
proof (cases property)
  case (TSPropertySignature key optional annotated)
  show ?thesis
  proof (cases annotated)
    case None
    then show ?thesis using TSPropertySignature by simp
  next
    case (Some a)
    then show ?thesis using TSPropertySignature assms [of st a tp]
      by (auto split: option.splits result.splits)
  qed
qed simp_all

lemma grows_param:
  assumes "\<And>node tp st. grows st (translateTypeAnnotation n rs node types tp cxxOnly st)"
  shows "grows st (translateParam n rs param types tp cxxOnly st)"
proof (cases param)
  case (TSParam paramName optional annotated)
  show ?thesis
  proof (cases annotated)
    case None
    then show ?thesis using TSParam by simp
  next
    case (Some a)
    then show ?thesis using TSParam assms [of st a tp]
      by (auto split: option.splits result.splits)
  qed
qed

lemma grows_objectProperties:
  assumes "\<And>node tp st. grows st (translateTypeAnnotation n rs node types tp cxxOnly st)"
  shows "grows st (translateObjectProperties n rs members types tp cxxOnly st)"
proof (induction members arbitrary: st)
  case Nil
  show ?case by simp
next
  case (Cons property rest)
  show ?case
  proof (cases "translateObjectProperty n rs property types tp cxxOnly st")
    case None
    then show ?thesis by (simp del: translateObjectProperty.simps)
  next
    case (Some r)
    have one: "prefix (errors st) (errors (stateOf r))"
      using grows_objectProperty [OF assms, of st property tp] Some by (simp add: grows_def)
    have two: "prefix (errors st) (errors (stateOf (tryParse tp r)))"
      using one stateOf_tryParse [of r tp] by (rule prefix_order.trans)
    show ?thesis
    proof (cases "tryParse tp r")
      case (Throws e st')
      then show ?thesis using Some two by (simp del: translateObjectProperty.simps)
    next
      case (Returns v st')
      then have st': "prefix (errors st) (errors st')" using two by simp
      show ?thesis
        using Some Returns Cons.IH [of st'] prefix_order.trans [OF st']
        by (auto simp: grows_def simp del: translateObjectProperty.simps
                 split: option.splits result.splits)
    qed
  qed
qed

lemma grows_params:
  assumes "\<And>node tp st. grows st (translateTypeAnnotation n rs node types tp cxxOnly st)"
  shows "grows st (translateParams n rs ps types tp cxxOnly st)"
proof (induction ps arbitrary: st)
  case Nil
  show ?case by simp
next
  case (Cons p rest)
  show ?case
  proof (cases "translateParam n rs p types tp cxxOnly st")
    case None
    then show ?thesis by (simp del: translateParam.simps)
  next
    case (Some r)
    have one: "prefix (errors st) (errors (stateOf r))"
      using grows_param [OF assms, of st p tp] Some by (simp add: grows_def)
    have two: "prefix (errors st) (errors (stateOf (tryParse tp r)))"
      using one stateOf_tryParse [of r tp] by (rule prefix_order.trans)
    show ?thesis
    proof (cases "tryParse tp r")
      case (Throws e st')
      then show ?thesis using Some two by (simp del: translateParam.simps)
    next
      case (Returns v st')
      then have st': "prefix (errors st) (errors st')" using two by simp
      show ?thesis
        using Some Returns Cons.IH [of st'] prefix_order.trans [OF st']
        by (auto simp: grows_def simp del: translateParam.simps
                 split: option.splits result.splits)
    qed
  qed
qed

lemma grows_function:
  assumes "\<And>node tp st. grows st (translateTypeAnnotation n rs node types tp cxxOnly st)"
  shows "grows st (translateFunctionTypeAnnotation n rs ps ret types tp cxxOnly st)"
proof (cases "translateParams n rs ps types tp cxxOnly st")
  case None
  then show ?thesis by simp
next
  case (Some r)
  show ?thesis
  proof (cases r)
    case (Throws e st')
    then show ?thesis using Some grows_params [OF assms, of st ps tp] by simp
  next
    case (Returns shapes st')
    then have st': "prefix (errors st) (errors st')"
      using Some grows_params [OF assms, of st ps tp] by simp
    show ?thesis
    proof (cases ret)
      case None
      then show ?thesis using Some Returns st' by simp
    next
      case (Some a)
      then show ?thesis using \<open>translateParams n rs ps types tp cxxOnly st = Some r\<close>
          Returns assms [of st' a tp] prefix_order.trans [OF st']
        by (auto simp: grows_def stateOf_settle split: option.splits result.splits)
    qed
  qed
qed

lemma grows_translateTypeAnnotation:
  "grows st (translateTypeAnnotation n rs node types tp cxxOnly st)"
proof (induction n arbitrary: node tp st)
  case 0
  show ?case by simp
next
  case (Suc n)
  note arr = grows_array [of n rs types cxxOnly, OF Suc.IH]
  note obj = grows_objectProperties [of n rs types cxxOnly, OF Suc.IH]
  note fn = grows_function [of n rs types cxxOnly, OF Suc.IH]
  show ?case
  proof (cases "rs node types")
    case None
    then show ?thesis by simp
  next
    case (Some r)
    show ?thesis
    proof (cases "typeAnnotation r")
      case (TSArrayType el)
      then show ?thesis using Some arr [of st el "nullable r"]
        by (simp del: translateArrayTypeAnnotation.simps)
    next
      case (TSTypeOperator op inner)
      then show ?thesis using Some arr [of st _ "nullable r"]
        by (cases inner) (simp_all del: translateArrayTypeAnnotation.simps)
    next
      case (TSTypeReference name tps)
      then show ?thesis using Some arr [of st _ "nullable r"]
        by (auto simp del: translateArrayTypeAnnotation.simps split: sum.splits)
    next
      case (TSTypeLiteral members)
      then show ?thesis using Some obj [of st members tp]
        by (auto simp: grows_def split: option.splits result.splits prod.splits)
    next
      case (TSFunctionType ps ret)
      then show ?thesis using Some fn [of st ps ret tp]
        by (auto simp: grows_def simp del: translateFunctionTypeAnnotation.simps
                 split: option.splits result.splits)
    qed (use Some in simp_all)
  qed
qed

lemma translateFunctionTypeAnnotation_grows:
  "translateFunctionTypeAnnotation n rs ps ret types tp cxxOnly st = Some x
     \<Longrightarrow> prefix (errors st) (errors (stateOf x))"
  using grows_function [of n rs types cxxOnly st ps ret tp, OF grows_translateTypeAnnotation]
  by (simp add: grows_def del: translateFunctionTypeAnnotation.simps)

lemma grows_buildPropertySchema:
  "grows st (buildPropertySchema n rs property types tp cxxOnly st)"
  unfolding buildPropertySchema_def Let_def grows_def
  by (auto simp del: translateFunctionTypeAnnotation.simps
           dest: translateFunctionTypeAnnotation_grows
           split: tsmember.splits option.splits tsnode.splits prod.splits result.splits)

lemma buildProperties_grows:
  "buildProperties n rs members types tp cxxOnly errs = Some (r, errs') \<Longrightarrow> prefix errs errs'"
proof (induction members arbitrary: errs r errs')
  case Nil
  then show ?case by simp
next
  case (Cons property rest)
  let ?st = "\<lparr>aliasMap = [], errors = errs\<rparr>"
  from Cons.prems obtain x where x: "buildPropertySchema n rs property types tp cxxOnly ?st = Some x"
    by (auto split: option.splits)
  have "prefix (errors ?st) (errors (stateOf x))"
    using grows_buildPropertySchema [of ?st n rs property types tp cxxOnly] x
    by (simp add: grows_def)
  then have two: "prefix errs (errors (stateOf (tryParse tp x)))"
    using stateOf_tryParse [of x tp] prefix_order.trans by fastforce
  show ?case
  proof (cases "tryParse tp x")
    case (Throws e st')
    then show ?thesis using Cons.prems x two by auto
  next
    case (Returns parsed st')
    then have st': "prefix errs (errors st')" using two by simp
    from Cons.prems x Returns obtain r' where
      "buildProperties n rs rest types tp cxxOnly (errors st') = Some (r', errs')"
      by (auto split: option.splits sum.splits prod.splits)
    from Cons.IH [OF this] st' show ?thesis by (rule prefix_order.trans [rotated])
  qed
qed

lemma parseModuleName_faults:
  "parseModuleName callExpressions = Inl e \<Longrightarrow> e \<in> set registrationFaults"
  by (auto simp: parseModuleName_def registrationFaults_def
           split: list.splits option.splits if_splits)

lemma parseModuleName_count:
  "callExpressions = [] \<Longrightarrow> parseModuleName callExpressions = Inl UnusedModuleInterfaceParserError"
  "length callExpressions > 1 \<Longrightarrow>
     parseModuleName callExpressions = Inl MoreThanOneModuleRegistryCallsParserError"
  by (auto simp: parseModuleName_def split: list.splits)

text \<open>
  C2, as the code has it: the module name is parsed inside \<^verbatim>\<open>tryParse\<close>. When the one
  module interface is there and the registration call is at fault (none, more than one,
  wrong arity, wrong argument type, no or wrong type parameter), the error capturer
  captures the error, \<^verbatim>\<open>moduleNames\<close> is empty and \<^verbatim>\<open>buildModuleSchema\<close> goes on to
  build the members: a schema it returns has no module name and comes with the error
  among the captured ones. Only under a \<^verbatim>\<open>tryParse\<close> that captures nothing does the
  error end \<^verbatim>\<open>buildModuleSchema\<close>.
\<close>

theorem registration_faults_are_captured:
  assumes spec: "filterModuleInterfaces (map snd (astTypes tree)) = Inr [moduleSpec]"
    and named: "idName moduleSpec = ''Spec''"
    and fault: "parseModuleName (astRegistryCalls tree) = Inl e"
  shows "e \<in> set registrationFaults
       \<and> (astRegistryCalls tree = [] \<longrightarrow> e = UnusedModuleInterfaceParserError)
       \<and> (length (astRegistryCalls tree) > 1 \<longrightarrow>
            e = MoreThanOneModuleRegistryCallsParserError)
       \<and> buildModuleSchema n rs hasteModuleName tree ErrorCapturer errs
           = (case buildProperties n rs (filter isSignature (body moduleSpec)) (astTypes tree)
                     ErrorCapturer (nativeOnlyFor [hasteModuleName]) (errs @ [e]) of
                None \<Rightarrow> None
              | Some (Inl e', errs') \<Rightarrow> Some (Inl e', errs')
              | Some (Inr pairs, errs') \<Rightarrow>
                  Some (Inr (reduceProperties [] (excludedFor hasteModuleName) pairs), errs'))
       \<and> (\<forall>schema errs'.
             buildModuleSchema n rs hasteModuleName tree ErrorCapturer errs
               = Some (Inr schema, errs')
             \<longrightarrow> moduleNames schema = [] \<and> prefix (errs @ [e]) errs')
       \<and> buildModuleSchema n rs hasteModuleName tree NullGuard errs = Some (Inl e, errs)"
proof -
  have reg: "e \<in> set registrationFaults"
    using fault by (rule parseModuleName_faults)
  then have pe: "isParserError e"
    by (auto simp: registrationFaults_def isParserError_def)
  have eq: "buildModuleSchema n rs hasteModuleName tree ErrorCapturer errs
           = (case buildProperties n rs (filter isSignature (body moduleSpec)) (astTypes tree)
                     ErrorCapturer (nativeOnlyFor [hasteModuleName]) (errs @ [e]) of
                None \<Rightarrow> None
              | Some (Inl e', errs') \<Rightarrow> Some (Inl e', errs')
              | Some (Inr pairs, errs') \<Rightarrow>
                  Some (Inr (reduceProperties [] (excludedFor hasteModuleName) pairs), errs'))"
    unfolding buildModuleSchema_def Let_def spec
    using named fault pe
    by (auto simp: settle_def tryParse_def validateNames_eq
             split: option.splits sum.splits prod.splits)
  have names: "\<forall>schema errs'.
           buildModuleSchema n rs hasteModuleName tree ErrorCapturer errs = Some (Inr schema, errs')
             \<longrightarrow> moduleNames schema = [] \<and> prefix (errs @ [e]) errs'"
    unfolding eq
    by (auto simp: reduceProperties_names dest: buildProperties_grows
             split: option.splits sum.splits prod.splits)
  have ng: "buildModuleSchema n rs hasteModuleName tree NullGuard errs = Some (Inl e, errs)"
    unfolding buildModuleSchema_def Let_def spec
    using named fault
    by (simp add: settle_def tryParse_def)
  have none: "astRegistryCalls tree = [] \<longrightarrow> e = UnusedModuleInterfaceParserError"
    using fault parseModuleName_count(1) [of "astRegistryCalls tree"] by auto
  have many: "length (astRegistryCalls tree) > 1 \<longrightarrow>
                e = MoreThanOneModuleRegistryCallsParserError"
    using fault parseModuleName_count(2) [of "astRegistryCalls tree"] by auto
  show ?thesis
    using reg none many eq names ng by (intro conjI)
qed

theorem registration_faults_are_captured_witness:
  "filterModuleInterfaces
     (map snd [(''Spec'', specInterface [TSMethodSignature ''f'' False [] (Some TSVoidKeyword)])])
     = Inr [specInterface [TSMethodSignature ''f'' False [] (Some TSVoidKeyword)]]
   \<and> idName (specInterface [TSMethodSignature ''f'' False [] (Some TSVoidKeyword)]) = ''Spec''
   \<and> parseModuleName [] = Inl UnusedModuleInterfaceParserError
   \<and> UnusedModuleInterfaceParserError \<in> set registrationFaults
   \<and> buildModuleSchema 1 (resolveTypeAnnotation 1) ''NativeFoo''
        \<lparr>astTypes =
           [(''Spec'', specInterface [TSMethodSignature ''f'' False [] (Some TSVoidKeyword)])],
         astRegistryCalls = []\<rparr> ErrorCapturer []
      = Some (Inr \<lparr>aliases = [],
                   properties =
                     [NamedShape ''f'' False
                        (Nullable False
                           (FunctionTypeAnnotation (Nullable False VoidTypeAnnotation) []))],
                   moduleNames = [], excludedPlatforms = None\<rparr>,
              [UnusedModuleInterfaceParserError])
   \<and> buildModuleSchema 1 (resolveTypeAnnotation 1) ''NativeFoo''
        \<lparr>astTypes =
           [(''Spec'', specInterface [TSMethodSignature ''f'' False [] (Some TSVoidKeyword)])],
         astRegistryCalls = []\<rparr> NullGuard []
      = Some (Inl UnusedModuleInterfaceParserError, [])"
  using registration_faults_are_captured
          [where tree = "\<lparr>astTypes =
                            [(''Spec'', specInterface
                                [TSMethodSignature ''f'' False [] (Some TSVoidKeyword)])],
                          astRegistryCalls = []\<rparr>"
             and moduleSpec = "specInterface [TSMethodSignature ''f'' False [] (Some TSVoidKeyword)]"
             and e = UnusedModuleInterfaceParserError and n = 1
             and rs = "resolveTypeAnnotation 1" and hasteModuleName = "''NativeFoo''"
             and errs = "[]"]
  by (simp add: specInterface_def isModuleInterface_def idName_def body_def parseModuleName_def
        registrationFaults_def isSignature_def nativeOnlyFor_def excludedFor_def endsWith_simps
        reduceProperties_def reduceStep_def spread_def List.map_filter_def
        buildPropertySchema_def resolveTypeAnnotation_def emitVoid_def wrapNullable_def
        unwrapNullable_def functionOf_def isFunctionTypeAnnotation_def settle_def tryParse_def)

text \<open>
  The module with the method \<^verbatim>\<open>f(): void\<close> and no registration call: a schema is
  returned, with the method and without module name, and the
  \<^verbatim>\<open>UnusedModuleInterfaceParserError\<close> is captured.
\<close>

theorem unused_module_interface_counterexample:
  "buildModuleSchema 1 (resolveTypeAnnotation 1) ''NativeFoo''
     \<lparr>astTypes =
        [(''Spec'', specInterface [TSMethodSignature ''f'' False [] (Some TSVoidKeyword)])],
      astRegistryCalls = []\<rparr> ErrorCapturer []
   = Some (Inr \<lparr>aliases = [],
                properties =
                  [NamedShape ''f'' False
                     (Nullable False
                        (FunctionTypeAnnotation (Nullable False VoidTypeAnnotation) []))],
                moduleNames = [], excludedPlatforms = None\<rparr>,
           [UnusedModuleInterfaceParserError])"
  by (simp add: buildModuleSchema_def specInterface_def isModuleInterface_def idName_def body_def
        parseModuleName_def isSignature_def validateNames_eq nativeOnlyFor_def excludedFor_def
        endsWith_simps reduceProperties_def reduceStep_def spread_def List.map_filter_def
        buildPropertySchema_def resolveTypeAnnotation_def emitVoid_def wrapNullable_def
        unwrapNullable_def functionOf_def isFunctionTypeAnnotation_def settle_def tryParse_def
        isParserError_def)

subsection \<open>Merging the alias maps\<close>

text \<open>
  The spread of two alias maps looks a name up in the second map first: an entry of the
  second map replaces the entry of the first map that has its name.
\<close>

lemma map_of_spread: "map_of (spread a b) = map_of a ++ map_of (rev b)"
proof (induction b arbitrary: a)
  case Nil
  show ?case by (simp add: spread_def)
next
  case (Cons x xs)
  obtain k v where x: "x = (k, v)" by (cases x)
  have one: "map_of a ++ map_of [x] = (map_of a)(k \<mapsto> v)"
    by (rule ext) (simp add: map_add_def x)
  have "map_of (spread a (x # xs)) = map_of (spread (AList.update k v a) xs)"
    by (simp add: spread_def x)
  also have "\<dots> = (map_of a)(k \<mapsto> v) ++ map_of (rev xs)"
    by (simp only: Cons.IH AList.update_conv')
  also have "\<dots> = (map_of a ++ map_of [x]) ++ map_of (rev xs)"
    by (simp only: one)
  also have "\<dots> = map_of a ++ (map_of [x] ++ map_of (rev xs))"
    by (simp only: map_add_assoc)
  also have "\<dots> = map_of a ++ map_of (rev (x # xs))"
    by (simp only: rev.simps map_of_append)
  finally show ?case .
qed

text \<open>
  The translators are functions of the tree: two runs on one node, whatever their fuel
  and the state they start in, end in the same value or the same error. A run under
  \<^verbatim>\<open>nullGuard\<close> that returns a value is followed step by step by a run under the error
  capturer, which captures nothing and returns that value.
\<close>

lemma outcomeOf_settle: "outcomeOf (settle x st) = x"
  by (cases x) (simp_all add: settle_def)

lemma outcomeOf_tryParse:
  assumes "ta = tb \<or> ta = NullGuard" and "ta = tb \<or> returned ra"
    and "outcomeOf ra = outcomeOf rb"
  shows "outcomeOf (tryParse ta ra) = outcomeOf (tryParse tb rb)"
  using assms by (cases ra; cases rb; cases ta; cases tb) (auto simp: tryParse_def)

lemma same_array:
  assumes ih: "\<forall>node ta tb sta stb ra rb.
      translateTypeAnnotation na rs node types ta cxxOnly sta = Some ra \<longrightarrow>
      translateTypeAnnotation nb rs node types tb cxxOnly stb = Some rb \<longrightarrow>
      (ta = tb \<or> ta = NullGuard) \<longrightarrow> (ta = tb \<or> returned ra) \<longrightarrow>
      outcomeOf ra = outcomeOf rb"
    and a: "translateArrayTypeAnnotation na rs types cxxOnly el nb' sta = Some ra"
    and b: "translateArrayTypeAnnotation nb rs types cxxOnly el nb' stb = Some rb"
  shows "outcomeOf ra = outcomeOf rb"
proof -
  from a obtain xa where xa: "translateTypeAnnotation na rs el types NullGuard cxxOnly sta = Some xa"
    by (auto split: option.splits)
  from b obtain xb where xb: "translateTypeAnnotation nb rs el types NullGuard cxxOnly stb = Some xb"
    by (auto split: option.splits)
  have "outcomeOf xa = outcomeOf xb" using ih [rule_format, OF xa xb] by simp
  then show ?thesis using a b xa xb
    by (cases xa; cases xb) (auto split: sum.splits)
qed

lemma same_objectProperty:
  assumes ih: "\<forall>node ta tb sta stb ra rb.
      translateTypeAnnotation na rs node types ta cxxOnly sta = Some ra \<longrightarrow>
      translateTypeAnnotation nb rs node types tb cxxOnly stb = Some rb \<longrightarrow>
      (ta = tb \<or> ta = NullGuard) \<longrightarrow> (ta = tb \<or> returned ra) \<longrightarrow>
      outcomeOf ra = outcomeOf rb"
    and a: "translateObjectProperty na rs property types ta cxxOnly sta = Some ra"
    and b: "translateObjectProperty nb rs property types tb cxxOnly stb = Some rb"
    and le: "ta = tb \<or> ta = NullGuard" and ret: "ta = tb \<or> returned ra"
  shows "outcomeOf ra = outcomeOf rb"
proof (cases property)
  case (TSPropertySignature key optional annotated)
  show ?thesis
  proof (cases annotated)
    case None
    then show ?thesis using TSPropertySignature a b by auto
  next
    case (Some node)
    from a TSPropertySignature Some obtain xa where
      xa: "translateTypeAnnotation na rs node types ta cxxOnly sta = Some xa"
      by (auto split: option.splits)
    from b TSPropertySignature Some obtain xb where
      xb: "translateTypeAnnotation nb rs node types tb cxxOnly stb = Some xb"
      by (auto split: option.splits)
    have "returned ra \<Longrightarrow> returned xa"
      using a TSPropertySignature Some xa by (cases xa) auto
    then have "outcomeOf xa = outcomeOf xb" using ih [rule_format, OF xa xb le] ret by blast
    then show ?thesis using a b xa xb TSPropertySignature Some
      by (cases xa; cases xb) (auto simp: outcomeOf_settle)
  qed
next
  case (TSMethodSignature x1 x2 x3 x4)
  then show ?thesis using a b by auto
next
  case (TSOtherSignature x)
  then show ?thesis using a b by auto
qed

lemma same_param:
  assumes ih: "\<forall>node ta tb sta stb ra rb.
      translateTypeAnnotation na rs node types ta cxxOnly sta = Some ra \<longrightarrow>
      translateTypeAnnotation nb rs node types tb cxxOnly stb = Some rb \<longrightarrow>
      (ta = tb \<or> ta = NullGuard) \<longrightarrow> (ta = tb \<or> returned ra) \<longrightarrow>
      outcomeOf ra = outcomeOf rb"
    and a: "translateParam na rs param types ta cxxOnly sta = Some ra"
    and b: "translateParam nb rs param types tb cxxOnly stb = Some rb"
    and le: "ta = tb \<or> ta = NullGuard" and ret: "ta = tb \<or> returned ra"
  shows "outcomeOf ra = outcomeOf rb"
proof (cases param)
  case (TSParam name optional annotated)
  show ?thesis
  proof (cases annotated)
    case None
    then show ?thesis using TSParam a b by auto
  next
    case (Some node)
    from a TSParam Some obtain xa where
      xa: "translateTypeAnnotation na rs node types ta cxxOnly sta = Some xa"
      by (auto split: option.splits)
    from b TSParam Some obtain xb where
      xb: "translateTypeAnnotation nb rs node types tb cxxOnly stb = Some xb"
      by (auto split: option.splits)
    have "returned ra \<Longrightarrow> returned xa"
      using a TSParam Some xa by (cases xa) auto
    then have "outcomeOf xa = outcomeOf xb" using ih [rule_format, OF xa xb le] ret by blast
    then show ?thesis using a b xa xb TSParam Some
      by (cases xa; cases xb) (auto simp: outcomeOf_settle)
  qed
qed

lemma same_objectProperties:
  assumes ih: "\<forall>node ta tb sta stb ra rb.
      translateTypeAnnotation na rs node types ta cxxOnly sta = Some ra \<longrightarrow>
      translateTypeAnnotation nb rs node types tb cxxOnly stb = Some rb \<longrightarrow>
      (ta = tb \<or> ta = NullGuard) \<longrightarrow> (ta = tb \<or> returned ra) \<longrightarrow>
      outcomeOf ra = outcomeOf rb"
    and le: "ta = tb \<or> ta = NullGuard"
  shows "translateObjectProperties na rs members types ta cxxOnly sta = Some ra \<Longrightarrow>
         translateObjectProperties nb rs members types tb cxxOnly stb = Some rb \<Longrightarrow>
         ta = tb \<or> returned ra \<Longrightarrow> outcomeOf ra = outcomeOf rb"
proof (induction members arbitrary: sta stb ra rb)
  case Nil
  then show ?case by auto
next
  case (Cons property rest)
  from Cons.prems(1) obtain xa where
    xa: "translateObjectProperty na rs property types ta cxxOnly sta = Some xa"
    by (auto simp del: translateObjectProperty.simps split: option.splits)
  from Cons.prems(2) obtain xb where
    xb: "translateObjectProperty nb rs property types tb cxxOnly stb = Some xb"
    by (auto simp del: translateObjectProperty.simps split: option.splits)
  have retx: "returned ra \<Longrightarrow> ta = NullGuard \<Longrightarrow> returned xa"
    using Cons.prems(1) xa
    by (cases xa) (auto simp: tryParse_def simp del: translateObjectProperty.simps)
  have one: "outcomeOf xa = outcomeOf xb"
    using same_objectProperty [OF ih xa xb le] retx le Cons.prems(3) by blast
  have ret': "ta = tb \<or> returned xa" using retx le Cons.prems(3) by blast
  have two: "outcomeOf (tryParse ta xa) = outcomeOf (tryParse tb xb)"
    using le ret' one by (rule outcomeOf_tryParse)
  show ?case
  proof (cases "tryParse ta xa")
    case (Throws e st')
    then obtain st'' where "tryParse tb xb = Throws e st''"
      using two by (cases "tryParse tb xb") auto
    then show ?thesis using Cons.prems(1,2) xa xb Throws
      by (auto simp del: translateObjectProperty.simps)
  next
    case (Returns parsed st')
    then obtain st'' where rb': "tryParse tb xb = Returns parsed st''"
      using two by (cases "tryParse tb xb") auto
    from Cons.prems(1) xa Returns obtain ya where
      ya: "translateObjectProperties na rs rest types ta cxxOnly st' = Some ya"
      by (auto simp del: translateObjectProperty.simps split: option.splits)
    from Cons.prems(2) xb rb' obtain yb where
      yb: "translateObjectProperties nb rs rest types tb cxxOnly st'' = Some yb"
      by (auto simp del: translateObjectProperty.simps split: option.splits)
    have "returned ra \<Longrightarrow> returned ya"
      using Cons.prems(1) xa Returns ya
      by (cases ya) (auto simp del: translateObjectProperty.simps)
    then have "ta = tb \<or> returned ya" using Cons.prems(3) by blast
    from Cons.IH [OF ya yb this] have "outcomeOf ya = outcomeOf yb" .
    then show ?thesis using Cons.prems(1,2) xa xb Returns rb' ya yb
      by (cases ya; cases yb) (auto simp del: translateObjectProperty.simps)
  qed
qed

lemma same_params:
  assumes ih: "\<forall>node ta tb sta stb ra rb.
      translateTypeAnnotation na rs node types ta cxxOnly sta = Some ra \<longrightarrow>
      translateTypeAnnotation nb rs node types tb cxxOnly stb = Some rb \<longrightarrow>
      (ta = tb \<or> ta = NullGuard) \<longrightarrow> (ta = tb \<or> returned ra) \<longrightarrow>
      outcomeOf ra = outcomeOf rb"
    and le: "ta = tb \<or> ta = NullGuard"
  shows "translateParams na rs ps types ta cxxOnly sta = Some ra \<Longrightarrow>
         translateParams nb rs ps types tb cxxOnly stb = Some rb \<Longrightarrow>
         ta = tb \<or> returned ra \<Longrightarrow> outcomeOf ra = outcomeOf rb"
proof (induction ps arbitrary: sta stb ra rb)
  case Nil
  then show ?case by auto
next
  case (Cons p rest)
  from Cons.prems(1) obtain xa where
    xa: "translateParam na rs p types ta cxxOnly sta = Some xa"
    by (auto simp del: translateParam.simps split: option.splits)
  from Cons.prems(2) obtain xb where
    xb: "translateParam nb rs p types tb cxxOnly stb = Some xb"
    by (auto simp del: translateParam.simps split: option.splits)
  have retx: "returned ra \<Longrightarrow> ta = NullGuard \<Longrightarrow> returned xa"
    using Cons.prems(1) xa
    by (cases xa) (auto simp: tryParse_def simp del: translateParam.simps)
  have one: "outcomeOf xa = outcomeOf xb"
    using same_param [OF ih xa xb le] retx le Cons.prems(3) by blast
  have ret': "ta = tb \<or> returned xa" using retx le Cons.prems(3) by blast
  have two: "outcomeOf (tryParse ta xa) = outcomeOf (tryParse tb xb)"
    using le ret' one by (rule outcomeOf_tryParse)
  show ?case
  proof (cases "tryParse ta xa")
    case (Throws e st')
    then obtain st'' where "tryParse tb xb = Throws e st''"
      using two by (cases "tryParse tb xb") auto
    then show ?thesis using Cons.prems(1,2) xa xb Throws
      by (auto simp del: translateParam.simps)
  next
    case (Returns parsed st')
    then obtain st'' where rb': "tryParse tb xb = Returns parsed st''"
      using two by (cases "tryParse tb xb") auto
    from Cons.prems(1) xa Returns obtain ya where
      ya: "translateParams na rs rest types ta cxxOnly st' = Some ya"
      by (auto simp del: translateParam.simps split: option.splits)
    from Cons.prems(2) xb rb' obtain yb where
      yb: "translateParams nb rs rest types tb cxxOnly st'' = Some yb"
      by (auto simp del: translateParam.simps split: option.splits)
    have "returned ra \<Longrightarrow> returned ya"
      using Cons.prems(1) xa Returns ya
      by (cases ya) (auto simp del: translateParam.simps)
    then have "ta = tb \<or> returned ya" using Cons.prems(3) by blast
    from Cons.IH [OF ya yb this] have "outcomeOf ya = outcomeOf yb" .
    then show ?thesis using Cons.prems(1,2) xa xb Returns rb' ya yb
      by (cases ya; cases yb) (auto simp del: translateParam.simps)
  qed
qed

lemma same_function:
  assumes ih: "\<forall>node ta tb sta stb ra rb.
      translateTypeAnnotation na rs node types ta cxxOnly sta = Some ra \<longrightarrow>
      translateTypeAnnotation nb rs node types tb cxxOnly stb = Some rb \<longrightarrow>
      (ta = tb \<or> ta = NullGuard) \<longrightarrow> (ta = tb \<or> returned ra) \<longrightarrow>
      outcomeOf ra = outcomeOf rb"
    and a: "translateFunctionTypeAnnotation na rs ps ret types ta cxxOnly sta = Some ra"
    and b: "translateFunctionTypeAnnotation nb rs ps ret types tb cxxOnly stb = Some rb"
    and le: "ta = tb \<or> ta = NullGuard" and rt: "ta = tb \<or> returned ra"
  shows "outcomeOf ra = outcomeOf rb"
proof -
  from a obtain xa where xa: "translateParams na rs ps types ta cxxOnly sta = Some xa"
    by (auto split: option.splits)
  from b obtain xb where xb: "translateParams nb rs ps types tb cxxOnly stb = Some xb"
    by (auto split: option.splits)
  have "returned ra \<Longrightarrow> returned xa"
    using a xa by (cases xa) auto
  then have rx: "ta = tb \<or> returned xa" using rt by blast
  have one: "outcomeOf xa = outcomeOf xb"
    using same_params [OF ih le xa xb rx] .
  show ?thesis
  proof (cases xa)
    case (Throws e st')
    then obtain st'' where "xb = Throws e st''" using one by (cases xb) auto
    then show ?thesis using a b xa xb Throws by auto
  next
    case (Returns shapes st')
    then obtain st'' where rb': "xb = Returns shapes st''" using one by (cases xb) auto
    show ?thesis
    proof (cases ret)
      case None
      then show ?thesis using a b xa xb Returns rb' by auto
    next
      case (Some node)
      from a xa Returns Some obtain ya where
        ya: "translateTypeAnnotation na rs node types ta cxxOnly st' = Some ya"
        by (auto split: option.splits)
      from b xb rb' Some obtain yb where
        yb: "translateTypeAnnotation nb rs node types tb cxxOnly st'' = Some yb"
        by (auto split: option.splits)
      have "returned ra \<Longrightarrow> returned ya"
        using a xa Returns Some ya by (cases ya) auto
      then have "outcomeOf ya = outcomeOf yb" using ih [rule_format, OF ya yb le] rt by blast
      then show ?thesis using a b xa xb Returns rb' Some ya yb
        by (cases ya; cases yb) (auto simp: outcomeOf_settle)
    qed
  qed
qed

lemma same_translateTypeAnnotation:
  "translateTypeAnnotation na rs node types ta cxxOnly sta = Some ra \<Longrightarrow>
   translateTypeAnnotation nb rs node types tb cxxOnly stb = Some rb \<Longrightarrow>
   ta = tb \<or> ta = NullGuard \<Longrightarrow> ta = tb \<or> returned ra \<Longrightarrow>
   outcomeOf ra = outcomeOf rb"
proof (induction na arbitrary: nb node ta tb sta stb ra rb)
  case 0
  then show ?case by simp
next
  case (Suc na)
  note a = Suc.prems(1) and le = Suc.prems(3) and rt = Suc.prems(4)
  from Suc.prems(2) obtain mb where nb: "nb = Suc mb" by (cases nb) auto
  note b = Suc.prems(2) [unfolded nb]
  have ih: "\<forall>node ta tb sta stb ra rb.
      translateTypeAnnotation na rs node types ta cxxOnly sta = Some ra \<longrightarrow>
      translateTypeAnnotation mb rs node types tb cxxOnly stb = Some rb \<longrightarrow>
      (ta = tb \<or> ta = NullGuard) \<longrightarrow> (ta = tb \<or> returned ra) \<longrightarrow>
      outcomeOf ra = outcomeOf rb"
    using Suc.IH by blast
  note arr = same_array [OF ih]
  note obj = same_objectProperties [OF ih le]
  note fn = same_function [OF ih]
  from a obtain r where r: "rs node types = Some r" by (auto split: option.splits)
  show ?case
  proof (cases "typeAnnotation r")
    case (TSArrayType el)
    then show ?thesis using a b r arr [of el "nullable r" sta ra stb rb]
      by (simp del: translateArrayTypeAnnotation.simps)
  next
    case (TSTypeOperator op inner)
    have "\<forall>ra rb. translateTypeAnnotation (Suc na) rs node types ta cxxOnly sta = Some ra \<longrightarrow>
            translateTypeAnnotation (Suc mb) rs node types tb cxxOnly stb = Some rb \<longrightarrow>
            outcomeOf ra = outcomeOf rb"
      using arr [of _ "nullable r" sta _ stb]
      by (cases inner) (auto simp: r TSTypeOperator simp del: translateArrayTypeAnnotation.simps)
    then show ?thesis using a b by blast
  next
    case (TSTypeReference name tps)
    have "\<forall>ra rb. translateTypeAnnotation (Suc na) rs node types ta cxxOnly sta = Some ra \<longrightarrow>
            translateTypeAnnotation (Suc mb) rs node types tb cxxOnly stb = Some rb \<longrightarrow>
            outcomeOf ra = outcomeOf rb"
      using arr [of _ "nullable r" sta _ stb]
      by (auto simp: r TSTypeReference outcomeOf_settle
               simp del: translateArrayTypeAnnotation.simps split: sum.splits)
    then show ?thesis using a b by blast
  next
    case (TSTypeLiteral members)
    from a r TSTypeLiteral obtain xa where
      xa: "translateObjectProperties na rs members types ta cxxOnly sta = Some xa"
      by (auto split: option.splits)
    from b r TSTypeLiteral obtain xb where
      xb: "translateObjectProperties mb rs members types tb cxxOnly stb = Some xb"
      by (auto split: option.splits)
    have "returned ra \<Longrightarrow> returned xa"
      using a r TSTypeLiteral xa by (cases xa) auto
    then have "ta = tb \<or> returned xa" using rt by blast
    from obj [OF xa xb this] have "outcomeOf xa = outcomeOf xb" .
    then show ?thesis using a b r TSTypeLiteral xa xb
      by (cases xa; cases xb) (auto simp: typeAliasResolution_def split: option.splits)
  next
    case (TSFunctionType ps ret)
    from a r TSFunctionType obtain xa where
      xa: "translateFunctionTypeAnnotation na rs ps ret types ta cxxOnly sta = Some xa"
      by (auto simp del: translateFunctionTypeAnnotation.simps split: option.splits)
    from b r TSFunctionType obtain xb where
      xb: "translateFunctionTypeAnnotation mb rs ps ret types tb cxxOnly stb = Some xb"
      by (auto simp del: translateFunctionTypeAnnotation.simps split: option.splits)
    have "returned ra \<Longrightarrow> returned xa"
      using a r TSFunctionType xa
      by (cases xa) (auto simp del: translateFunctionTypeAnnotation.simps)
    then have "ta = tb \<or> returned xa" using rt by blast
    from fn [OF xa xb le this] have "outcomeOf xa = outcomeOf xb" .
    then show ?thesis using a b r TSFunctionType xa xb
      by (cases xa; cases xb) (auto simp del: translateFunctionTypeAnnotation.simps)
  next
    case (TSUnionType ts)
    have "\<forall>ra rb. translateTypeAnnotation (Suc na) rs node types ta cxxOnly sta = Some ra \<longrightarrow>
            translateTypeAnnotation (Suc mb) rs node types tb cxxOnly stb = Some rb \<longrightarrow>
            outcomeOf ra = outcomeOf rb"
      by (auto simp: r TSUnionType outcomeOf_settle)
    then show ?thesis using a b by blast
  next
    case TSUnknownKeyword
    have "\<forall>ra rb. translateTypeAnnotation (Suc na) rs node types ta cxxOnly sta = Some ra \<longrightarrow>
            translateTypeAnnotation (Suc mb) rs node types tb cxxOnly stb = Some rb \<longrightarrow>
            outcomeOf ra = outcomeOf rb"
      by (auto simp: r TSUnknownKeyword)
    then show ?thesis using a b by blast
  qed (use a b r in auto)
qed

lemma same_translateObjectProperties:
  "translateObjectProperties na rs members types ta cxxOnly sta = Some ra \<Longrightarrow>
   translateObjectProperties nb rs members types tb cxxOnly stb = Some rb \<Longrightarrow>
   ta = tb \<or> ta = NullGuard \<Longrightarrow> ta = tb \<or> returned ra \<Longrightarrow>
   outcomeOf ra = outcomeOf rb"
  by (rule same_objectProperties [rotated 2]) (auto dest: same_translateTypeAnnotation)

text \<open>
  The alias map of a run holds registrations of the run only: a translation that starts
  with such a map ends with such a map.
\<close>

lemma registered_Nil: "registered rs types tp cxxOnly []"
  by (simp add: registered_def)

lemma registered_update:
  assumes "registered rs types tp cxxOnly am" and "registers rs types tp cxxOnly name a"
  shows "registered rs types tp cxxOnly (AList.update name a am)"
proof -
  have "set (AList.update name a am) \<subseteq> insert (name, a) (set am)"
    by (induction am) auto
  then show ?thesis using assms
    by (auto simp: registered_def distinct_update)
qed

lemma aliasMap_tryParse: "aliasMap (stateOf (tryParse t r)) = aliasMap (stateOf r)"
  by (cases r; cases t) (simp_all add: tryParse_def)

lemma kept_array:
  assumes ih: "\<forall>node t st r.
      registered rs types tp cxxOnly (aliasMap st) \<longrightarrow>
      translateTypeAnnotation n rs node types t cxxOnly st = Some r \<longrightarrow>
      (t = tp \<or> t = NullGuard) \<longrightarrow> registered rs types tp cxxOnly (aliasMap (stateOf r))"
    and st: "registered rs types tp cxxOnly (aliasMap st)"
    and a: "translateArrayTypeAnnotation n rs types cxxOnly el nb st = Some r"
  shows "registered rs types tp cxxOnly (aliasMap (stateOf r))"
proof -
  from a obtain x where x: "translateTypeAnnotation n rs el types NullGuard cxxOnly st = Some x"
    by (auto split: option.splits)
  have "registered rs types tp cxxOnly (aliasMap (stateOf x))"
    using ih [rule_format, OF st x] by simp
  then show ?thesis using a x
    by (cases x) (auto split: sum.splits)
qed

lemma kept_objectProperty:
  assumes ih: "\<forall>node t st r.
      registered rs types tp cxxOnly (aliasMap st) \<longrightarrow>
      translateTypeAnnotation n rs node types t cxxOnly st = Some r \<longrightarrow>
      (t = tp \<or> t = NullGuard) \<longrightarrow> registered rs types tp cxxOnly (aliasMap (stateOf r))"
    and st: "registered rs types tp cxxOnly (aliasMap st)"
    and a: "translateObjectProperty n rs property types t cxxOnly st = Some r"
    and t: "t = tp \<or> t = NullGuard"
  shows "registered rs types tp cxxOnly (aliasMap (stateOf r))"
proof (cases property)
  case (TSPropertySignature key optional annotated)
  show ?thesis
  proof (cases annotated)
    case None
    then show ?thesis using TSPropertySignature a st by auto
  next
    case (Some node)
    from a TSPropertySignature Some obtain x where
      x: "translateTypeAnnotation n rs node types t cxxOnly st = Some x"
      by (auto split: option.splits)
    have "registered rs types tp cxxOnly (aliasMap (stateOf x))"
      using ih [rule_format, OF st x t] .
    then show ?thesis using a x TSPropertySignature Some
      by (cases x) (auto simp: stateOf_settle)
  qed
next
  case (TSMethodSignature x1 x2 x3 x4)
  then show ?thesis using a st by auto
next
  case (TSOtherSignature x)
  then show ?thesis using a st by auto
qed

lemma kept_param:
  assumes ih: "\<forall>node t st r.
      registered rs types tp cxxOnly (aliasMap st) \<longrightarrow>
      translateTypeAnnotation n rs node types t cxxOnly st = Some r \<longrightarrow>
      (t = tp \<or> t = NullGuard) \<longrightarrow> registered rs types tp cxxOnly (aliasMap (stateOf r))"
    and st: "registered rs types tp cxxOnly (aliasMap st)"
    and a: "translateParam n rs param types t cxxOnly st = Some r"
    and t: "t = tp \<or> t = NullGuard"
  shows "registered rs types tp cxxOnly (aliasMap (stateOf r))"
proof (cases param)
  case (TSParam name optional annotated)
  show ?thesis
  proof (cases annotated)
    case None
    then show ?thesis using TSParam a st by auto
  next
    case (Some node)
    from a TSParam Some obtain x where
      x: "translateTypeAnnotation n rs node types t cxxOnly st = Some x"
      by (auto split: option.splits)
    have "registered rs types tp cxxOnly (aliasMap (stateOf x))"
      using ih [rule_format, OF st x t] .
    then show ?thesis using a x TSParam Some
      by (cases x) (auto simp: stateOf_settle)
  qed
qed

lemma kept_objectProperties:
  assumes ih: "\<forall>node t st r.
      registered rs types tp cxxOnly (aliasMap st) \<longrightarrow>
      translateTypeAnnotation n rs node types t cxxOnly st = Some r \<longrightarrow>
      (t = tp \<or> t = NullGuard) \<longrightarrow> registered rs types tp cxxOnly (aliasMap (stateOf r))"
    and t: "t = tp \<or> t = NullGuard"
  shows "registered rs types tp cxxOnly (aliasMap st) \<Longrightarrow>
         translateObjectProperties n rs members types t cxxOnly st = Some r \<Longrightarrow>
         registered rs types tp cxxOnly (aliasMap (stateOf r))"
proof (induction members arbitrary: st r)
  case Nil
  then show ?case by auto
next
  case (Cons property rest)
  from Cons.prems(2) obtain x where
    x: "translateObjectProperty n rs property types t cxxOnly st = Some x"
    by (auto simp del: translateObjectProperty.simps split: option.splits)
  have one: "registered rs types tp cxxOnly (aliasMap (stateOf (tryParse t x)))"
    using kept_objectProperty [OF ih Cons.prems(1) x t] by (simp only: aliasMap_tryParse)
  show ?case
  proof (cases "tryParse t x")
    case (Throws e st')
    then show ?thesis using Cons.prems(2) x one
      by (auto simp del: translateObjectProperty.simps)
  next
    case (Returns parsed st')
    then have st': "registered rs types tp cxxOnly (aliasMap st')" using one by simp
    from Cons.prems(2) x Returns obtain y where
      y: "translateObjectProperties n rs rest types t cxxOnly st' = Some y"
      by (auto simp del: translateObjectProperty.simps split: option.splits)
    from Cons.IH [OF st' y] show ?thesis using Cons.prems(2) x Returns y
      by (cases y) (auto simp del: translateObjectProperty.simps)
  qed
qed

lemma kept_params:
  assumes ih: "\<forall>node t st r.
      registered rs types tp cxxOnly (aliasMap st) \<longrightarrow>
      translateTypeAnnotation n rs node types t cxxOnly st = Some r \<longrightarrow>
      (t = tp \<or> t = NullGuard) \<longrightarrow> registered rs types tp cxxOnly (aliasMap (stateOf r))"
    and t: "t = tp \<or> t = NullGuard"
  shows "registered rs types tp cxxOnly (aliasMap st) \<Longrightarrow>
         translateParams n rs ps types t cxxOnly st = Some r \<Longrightarrow>
         registered rs types tp cxxOnly (aliasMap (stateOf r))"
proof (induction ps arbitrary: st r)
  case Nil
  then show ?case by auto
next
  case (Cons p rest)
  from Cons.prems(2) obtain x where
    x: "translateParam n rs p types t cxxOnly st = Some x"
    by (auto simp del: translateParam.simps split: option.splits)
  have one: "registered rs types tp cxxOnly (aliasMap (stateOf (tryParse t x)))"
    using kept_param [OF ih Cons.prems(1) x t] by (simp only: aliasMap_tryParse)
  show ?case
  proof (cases "tryParse t x")
    case (Throws e st')
    then show ?thesis using Cons.prems(2) x one
      by (auto simp del: translateParam.simps)
  next
    case (Returns parsed st')
    then have st': "registered rs types tp cxxOnly (aliasMap st')" using one by simp
    from Cons.prems(2) x Returns obtain y where
      y: "translateParams n rs rest types t cxxOnly st' = Some y"
      by (auto simp del: translateParam.simps split: option.splits)
    from Cons.IH [OF st' y] show ?thesis using Cons.prems(2) x Returns y
      by (cases y) (auto simp del: translateParam.simps)
  qed
qed

lemma kept_function:
  assumes ih: "\<forall>node t st r.
      registered rs types tp cxxOnly (aliasMap st) \<longrightarrow>
      translateTypeAnnotation n rs node types t cxxOnly st = Some r \<longrightarrow>
      (t = tp \<or> t = NullGuard) \<longrightarrow> registered rs types tp cxxOnly (aliasMap (stateOf r))"
    and st: "registered rs types tp cxxOnly (aliasMap st)"
    and a: "translateFunctionTypeAnnotation n rs ps ret types t cxxOnly st = Some r"
    and t: "t = tp \<or> t = NullGuard"
  shows "registered rs types tp cxxOnly (aliasMap (stateOf r))"
proof -
  from a obtain x where x: "translateParams n rs ps types t cxxOnly st = Some x"
    by (auto split: option.splits)
  have one: "registered rs types tp cxxOnly (aliasMap (stateOf x))"
    using kept_params [OF ih t st x] .
  show ?thesis
  proof (cases x)
    case (Throws e st')
    then show ?thesis using a x one by auto
  next
    case (Returns shapes st')
    then have st': "registered rs types tp cxxOnly (aliasMap st')" using one by simp
    show ?thesis
    proof (cases ret)
      case None
      then show ?thesis using a x Returns st' by auto
    next
      case (Some node)
      from a x Returns Some obtain y where
        y: "translateTypeAnnotation n rs node types t cxxOnly st' = Some y"
        by (auto split: option.splits)
      from ih [rule_format, OF st' y t] show ?thesis using a x Returns Some y
        by (cases y) (auto simp: stateOf_settle)
    qed
  qed
qed

lemma kept_translateTypeAnnotation:
  "registered rs types tp cxxOnly (aliasMap st) \<Longrightarrow>
   translateTypeAnnotation n rs node types t cxxOnly st = Some r \<Longrightarrow>
   t = tp \<or> t = NullGuard \<Longrightarrow> registered rs types tp cxxOnly (aliasMap (stateOf r))"
proof (induction n arbitrary: node t st r)
  case 0
  then show ?case by simp
next
  case (Suc n)
  note st = Suc.prems(1) and a = Suc.prems(2) and t = Suc.prems(3)
  have ih: "\<forall>node t st r.
      registered rs types tp cxxOnly (aliasMap st) \<longrightarrow>
      translateTypeAnnotation n rs node types t cxxOnly st = Some r \<longrightarrow>
      (t = tp \<or> t = NullGuard) \<longrightarrow> registered rs types tp cxxOnly (aliasMap (stateOf r))"
    using Suc.IH by blast
  note arr = kept_array [OF ih st]
  note obj = kept_objectProperties [OF ih t st]
  note fn = kept_function [OF ih st]
  from a obtain res where res: "rs node types = Some res" by (auto split: option.splits)
  have plain: "registered rs types tp cxxOnly (aliasMap (stateOf r))" if "stateOf r = st"
    using that st by simp
  show ?case
  proof (cases "typeAnnotation res")
    case (TSArrayType el)
    then show ?thesis using a res arr [of el "nullable res" r]
      by (simp del: translateArrayTypeAnnotation.simps)
  next
    case (TSTypeOperator op inner)
    have "\<forall>r. translateTypeAnnotation (Suc n) rs node types t cxxOnly st = Some r \<longrightarrow>
            registered rs types tp cxxOnly (aliasMap (stateOf r))"
      using arr [of _ "nullable res"] st
      by (cases inner) (auto simp: res TSTypeOperator simp del: translateArrayTypeAnnotation.simps)
    then show ?thesis using a by blast
  next
    case (TSTypeReference name tps)
    have "\<forall>r. translateTypeAnnotation (Suc n) rs node types t cxxOnly st = Some r \<longrightarrow>
            registered rs types tp cxxOnly (aliasMap (stateOf r))"
      using arr [of _ "nullable res"] st
      by (auto simp: res TSTypeReference stateOf_settle
               simp del: translateArrayTypeAnnotation.simps split: sum.splits)
    then show ?thesis using a by blast
  next
    case (TSTypeLiteral members)
    from a res TSTypeLiteral obtain x where
      x: "translateObjectProperties n rs members types t cxxOnly st = Some x"
      by (auto split: option.splits)
    have one: "registered rs types tp cxxOnly (aliasMap (stateOf x))" using obj [OF x] .
    show ?thesis
    proof (cases x)
      case (Throws e st')
      then show ?thesis using a res TSTypeLiteral x one by auto
    next
      case (Returns props st')
      then have st': "registered rs types tp cxxOnly (aliasMap st')" using one by simp
      show ?thesis
      proof (cases "typeAliasResolutionStatus res")
        case None
        then show ?thesis using a res TSTypeLiteral x Returns st'
          by (auto simp: typeAliasResolution_def)
      next
        case (Some name)
        have "registers rs types tp cxxOnly name (ObjectTypeAnnotation props)"
          using res TSTypeLiteral Some t x [unfolded Returns] by (rule registersI)
        from registered_update [OF st' this] show ?thesis
          using a res TSTypeLiteral x Returns Some
          by (auto simp: typeAliasResolution_def)
      qed
    qed
  next
    case (TSFunctionType ps ret)
    from a res TSFunctionType obtain x where
      x: "translateFunctionTypeAnnotation n rs ps ret types t cxxOnly st = Some x"
      by (auto simp del: translateFunctionTypeAnnotation.simps split: option.splits)
    from fn [OF x t] show ?thesis using a res TSFunctionType x
      by (cases x) (auto simp del: translateFunctionTypeAnnotation.simps)
  next
    case (TSUnionType ts)
    have "translateTypeAnnotation (Suc n) rs node types t cxxOnly st = Some r \<longrightarrow> stateOf r = st"
      by (auto simp: res TSUnionType stateOf_settle)
    then show ?thesis using a plain by blast
  next
    case TSUnknownKeyword
    have "translateTypeAnnotation (Suc n) rs node types t cxxOnly st = Some r \<longrightarrow> stateOf r = st"
      by (auto simp: res TSUnknownKeyword)
    then show ?thesis using a plain by blast
  qed (use a res st in auto)
qed

text \<open>
  With a resolver that reaches one object type through a name, a name is registered
  with one annotation in a run; so the spread of two alias maps of the run is their
  merge in which the first registration wins.
\<close>

lemma registers_same:
  assumes c: "aliasConsistent rs types"
    and a: "registers rs types tp cxxOnly name a"
    and b: "registers rs types tp cxxOnly name b"
  shows "a = b"
proof -
  from a obtain nodea ra membersa ta na sta propsa sta' where
    ra: "rs nodea types = Some ra" "typeAnnotation ra = TSTypeLiteral membersa"
        "typeAliasResolutionStatus ra = Some name"
    and ta: "ta = tp \<or> ta = NullGuard"
    and xa: "translateObjectProperties na rs membersa types ta cxxOnly sta = Some (Returns propsa sta')"
    and a': "a = ObjectTypeAnnotation propsa"
    by (rule registers.cases) blast
  from b obtain nodeb rb membersb tb nb stb propsb stb' where
    rb: "rs nodeb types = Some rb" "typeAnnotation rb = TSTypeLiteral membersb"
        "typeAliasResolutionStatus rb = Some name"
    and tb: "tb = tp \<or> tb = NullGuard"
    and xb: "translateObjectProperties nb rs membersb types tb cxxOnly stb = Some (Returns propsb stb')"
    and b': "b = ObjectTypeAnnotation propsb"
    by (rule registers.cases) blast
  have m: "membersa = membersb"
    using c ra rb unfolding aliasConsistent_def by blast
  have "outcomeOf (Returns propsa sta') = outcomeOf (Returns propsb stb')"
  proof (cases "ta = tb \<or> ta = NullGuard")
    case True
    show ?thesis
      by (rule same_translateObjectProperties [OF xa xb [folded m] True]) simp
  next
    case False
    then have "tb = ta \<or> tb = NullGuard" using ta tb by auto
    from same_translateObjectProperties [OF xb [folded m] xa this] show ?thesis by simp
  qed
  then show ?thesis using a' b' by simp
qed

lemma update_absent: "k \<notin> fst ` set a \<Longrightarrow> AList.update k v a = a @ [(k, v)]"
  by (induction a) auto

lemma update_present: "(k, v) \<in> set a \<Longrightarrow> distinct (map fst a) \<Longrightarrow> AList.update k v a = a"
  by (induction a) (auto simp: image_iff)

lemma spread_Cons: "spread a (entry # b) = spread (AList.update (fst entry) (snd entry) a) b"
  by (cases entry) (simp add: spread_def)

lemma spread_Nil: "spread a [] = a"
  by (simp add: spread_def)

lemma spread_mergeFirstWins:
  assumes c: "aliasConsistent rs types"
  shows "registered rs types tp cxxOnly a \<Longrightarrow>
         \<forall>entry \<in> set b. registers rs types tp cxxOnly (fst entry) (snd entry) \<Longrightarrow>
         spread a b = mergeFirstWins a b \<and> registered rs types tp cxxOnly (spread a b)"
proof (induction b arbitrary: a)
  case Nil
  then show ?case by (simp add: spread_Nil)
next
  case (Cons entry b)
  obtain k v where entry: "entry = (k, v)" by (cases entry)
  have kv: "registers rs types tp cxxOnly k v" using Cons.prems(2) entry by simp
  have rest: "\<forall>entry \<in> set b. registers rs types tp cxxOnly (fst entry) (snd entry)"
    using Cons.prems(2) by simp
  show ?case
  proof (cases "k \<in> fst ` set a")
    case True
    then obtain w where w: "(k, w) \<in> set a" by auto
    then have "registers rs types tp cxxOnly k w"
      using Cons.prems(1) by (auto simp: registered_def)
    with c have "w = v" using kv by (rule registers_same)
    then have "AList.update k v a = a"
      using w Cons.prems(1) by (simp add: update_present registered_def)
    then show ?thesis using Cons.IH [OF Cons.prems(1) rest] True
      by (auto simp: spread_Cons entry)
  next
    case False
    have "registered rs types tp cxxOnly (AList.update k v a)"
      using Cons.prems(1) kv by (rule registered_update)
    from Cons.IH [OF this rest] show ?thesis using False
      by (auto simp: spread_Cons entry update_absent)
  qed
qed

lemma foldl_spread_mergeFirstWins:
  assumes c: "aliasConsistent rs types"
  shows "registered rs types tp cxxOnly acc \<Longrightarrow>
         \<forall>am \<in> set ams. registered rs types tp cxxOnly am \<Longrightarrow>
         foldl spread acc ams = foldl mergeFirstWins acc ams
         \<and> registered rs types tp cxxOnly (foldl spread acc ams)"
proof (induction ams arbitrary: acc)
  case Nil
  then show ?case by simp
next
  case (Cons am ams)
  have "\<forall>entry \<in> set am. registers rs types tp cxxOnly (fst entry) (snd entry)"
    using Cons.prems(2) by (simp add: registered_def)
  from spread_mergeFirstWins [OF c Cons.prems(1) this]
  have one: "spread acc am = mergeFirstWins acc am"
    and two: "registered rs types tp cxxOnly (spread acc am)" by blast+
  from Cons.IH [OF two] Cons.prems(2) show ?case by (auto simp: one [symmetric])
qed

lemma keys_update: "fst ` set (AList.update k v a) = insert k (fst ` set a)"
  by (induction a) auto

lemma keys_spread: "fst ` set (spread a b) = fst ` set a \<union> fst ` set b"
proof (induction b arbitrary: a)
  case Nil
  show ?case by (simp add: spread_Nil)
next
  case (Cons entry b)
  show ?case by (simp add: spread_Cons Cons.IH keys_update)
qed

lemma keys_foldl_spread:
  "fst ` set (foldl spread acc ams) = fst ` set acc \<union> (\<Union>am \<in> set ams. fst ` set am)"
  by (induction ams arbitrary: acc) (auto simp: keys_spread)

lemma map_of_mergeFirstWins: "map_of (mergeFirstWins a b) = map_of b ++ map_of a"
proof (induction b arbitrary: a)
  case Nil
  show ?case by simp
next
  case (Cons entry b)
  obtain k v where entry: "entry = (k, v)" by (cases entry)
  show ?case
  proof (cases "k \<in> fst ` set a")
    case True
    then have "map_of a k \<noteq> None" by (simp add: map_of_eq_None_iff)
    then show ?thesis using True Cons.IH [of a]
      by (auto simp: entry map_add_def fun_eq_iff split: option.splits)
  next
    case False
    then have "map_of a k = None" by (simp add: map_of_eq_None_iff)
    then show ?thesis using False Cons.IH [of "a @ [entry]"]
      by (auto simp: entry map_add_def fun_eq_iff split: option.splits)
  qed
qed

text \<open>The alias maps of the members that were built are alias maps of the run.\<close>

lemma kept_translateFunctionTypeAnnotation:
  assumes "registered rs types tp cxxOnly (aliasMap st)"
    and "translateFunctionTypeAnnotation n rs ps ret types t cxxOnly st = Some r"
    and "t = tp \<or> t = NullGuard"
  shows "registered rs types tp cxxOnly (aliasMap (stateOf r))"
proof -
  have ih: "\<forall>node t st r.
      registered rs types tp cxxOnly (aliasMap st) \<longrightarrow>
      translateTypeAnnotation n rs node types t cxxOnly st = Some r \<longrightarrow>
      (t = tp \<or> t = NullGuard) \<longrightarrow> registered rs types tp cxxOnly (aliasMap (stateOf r))"
    using kept_translateTypeAnnotation by blast
  show ?thesis using ih assms by (rule kept_function)
qed

lemma kept_buildPropertySchema:
  assumes st: "registered rs types tp cxxOnly (aliasMap st)"
    and a: "buildPropertySchema n rs property types tp cxxOnly st = Some r"
  shows "registered rs types tp cxxOnly (aliasMap (stateOf r))"
proof -
  have fn: "registered rs types tp cxxOnly (aliasMap (stateOf x))"
    if "translateFunctionTypeAnnotation n rs ps ret types tp cxxOnly st = Some x" for ps ret x
    using st that by (rule kept_translateFunctionTypeAnnotation) simp
  have "\<forall>r. buildPropertySchema n rs property types tp cxxOnly st = Some r \<longrightarrow>
          registered rs types tp cxxOnly (aliasMap (stateOf r))"
    unfolding buildPropertySchema_def Let_def
    using st
    by (auto simp del: translateFunctionTypeAnnotation.simps dest: fn
             split: tsmember.splits option.splits tsnode.splits prod.splits result.splits)
  then show ?thesis using a by blast
qed

lemma buildProperties_registered:
  "buildProperties n rs members types tp cxxOnly errs = Some (Inr pairs, errs') \<Longrightarrow>
   Some (am, shape) \<in> set pairs \<Longrightarrow> registered rs types tp cxxOnly am"
proof (induction members arbitrary: errs pairs errs')
  case Nil
  then show ?case by simp
next
  case (Cons property rest)
  let ?st = "\<lparr>aliasMap = [], errors = errs\<rparr>"
  from Cons.prems(1) obtain x where
    x: "buildPropertySchema n rs property types tp cxxOnly ?st = Some x"
    by (auto split: option.splits)
  have "registered rs types tp cxxOnly (aliasMap (stateOf x))"
    by (rule kept_buildPropertySchema [OF _ x]) (simp add: registered_Nil)
  then have one: "registered rs types tp cxxOnly (aliasMap (stateOf (tryParse tp x)))"
    by (simp only: aliasMap_tryParse)
  show ?case
  proof (cases "tryParse tp x")
    case (Throws e st')
    then show ?thesis using Cons.prems(1) x by auto
  next
    case (Returns parsed st')
    then have st': "registered rs types tp cxxOnly (aliasMap st')" using one by simp
    from Cons.prems(1) x Returns obtain rest' where
      rest: "buildProperties n rs rest types tp cxxOnly (errors st') = Some (Inr rest', errs')"
      and pairs: "pairs = map_option (\<lambda>propertyShape. (aliasMap st', propertyShape)) parsed # rest'"
      by (auto split: option.splits sum.splits prod.splits)
    show ?thesis
    proof (cases "Some (am, shape) \<in> set rest'")
      case True
      with rest show ?thesis by (rule Cons.IH)
    next
      case False
      then have "am = aliasMap st'" using Cons.prems(2) pairs by (cases parsed) auto
      then show ?thesis using st' by simp
    qed
  qed
qed

text \<open>
  The resolver modelled from the spec reaches one object type through a name: the
  right-hand side of the alias of that name, unwrapped of its nullability markers.
\<close>

lemma strips_literal:
  "strips node a \<Longrightarrow> strips node b \<Longrightarrow> a = TSTypeLiteral ma \<Longrightarrow> b = TSTypeLiteral mb \<Longrightarrow>
   ma = mb"
proof (induction arbitrary: b rule: strips.induct)
  case (stripsRefl node)
  then show ?case by (auto elim: strips.cases)
next
  case (stripsMarker ts t others node)
  from stripsMarker.prems(1) show ?case
  proof (cases rule: strips.cases)
    case stripsRefl
    then show ?thesis using stripsMarker.prems by simp
  next
    case (stripsMarker t' others')
    then have "t' = t" using stripsMarker.hyps by simp
    then show ?thesis using stripsMarker stripsMarker.IH [of b] stripsMarker.prems by simp
  qed
qed

lemma resolveLoop_literal:
  "resolveLoop k types node nul status = Some r \<Longrightarrow>
   typeAnnotation r = TSTypeLiteral members \<Longrightarrow> typeAliasResolutionStatus r = Some name \<Longrightarrow>
   (status = Some name \<and> strips node (TSTypeLiteral members))
   \<or> (\<exists>rhs. map_of types name = Some (TSTypeAliasDeclaration rhs)
            \<and> strips rhs (TSTypeLiteral members))"
proof (induction k types node nul status rule: resolveLoop.induct)
  case (1 types node nul status)
  then show ?case by simp
next
  case (2 k types node nul status)
  show ?case
  proof (cases node)
    case (TSUnionType ts)
    show ?thesis
    proof (cases "list_ex isNullMarker ts")
      case False
      then show ?thesis using "2.prems" TSUnionType by auto
    next
      case True
      show ?thesis
      proof (cases "filter (\<lambda>t. \<not> isNullMarker t) ts")
        case Nil
        then show ?thesis using "2.prems" TSUnionType True by simp
      next
        case (Cons t others)
        then have run: "resolveLoop k types t True status = Some r"
          using "2.prems"(1) TSUnionType True by simp
        from "2.IH"(2) [OF TSUnionType True Cons run "2.prems"(2,3)]
        show ?thesis using TSUnionType True Cons by (auto intro: stripsMarker)
      qed
    qed
  next
    case (TSTypeReference ref tps)
    show ?thesis
    proof (cases "map_of types ref")
      case None
      then show ?thesis using "2.prems" TSTypeReference by auto
    next
      case (Some d)
      show ?thesis
      proof (cases d)
        case (TSTypeAliasDeclaration rhs)
        then have run: "resolveLoop k types rhs nul (Some ref) = Some r"
          using "2.prems"(1) TSTypeReference Some by simp
        from "2.IH"(1) [OF TSTypeReference Some TSTypeAliasDeclaration run "2.prems"(2,3)]
        show ?thesis using Some TSTypeAliasDeclaration by auto
      qed (use "2.prems" TSTypeReference Some in auto)
    qed
  qed (use "2.prems" in \<open>auto intro: stripsRefl\<close>)
qed

lemma aliasConsistent_resolveTypeAnnotation: "aliasConsistent (resolveTypeAnnotation k) types"
  unfolding aliasConsistent_def resolveTypeAnnotation_def
proof (intro allI impI, elim conjE)
  fix nodea nodeb ra rb name membersa membersb
  assume a: "resolveLoop k types nodea False None = Some ra"
    and b: "resolveLoop k types nodeb False None = Some rb"
    and la: "typeAnnotation ra = TSTypeLiteral membersa"
    and lb: "typeAnnotation rb = TSTypeLiteral membersb"
    and sa: "typeAliasResolutionStatus ra = Some name"
    and sb: "typeAliasResolutionStatus rb = Some name"
  from resolveLoop_literal [OF a la sa] obtain rhs where
    rhs: "map_of types name = Some (TSTypeAliasDeclaration rhs)"
    and one: "strips rhs (TSTypeLiteral membersa)" by auto
  from resolveLoop_literal [OF b lb sb] rhs have two: "strips rhs (TSTypeLiteral membersb)"
    by auto
  from one two show "membersa = membersb" by (rule strips_literal) simp_all
qed

text \<open>The alias maps of the members are spread one after the other.\<close>

lemma set_map_filter_id: "x \<in> set (List.map_filter (\<lambda>pair. pair) xs) \<longleftrightarrow> Some x \<in> set xs"
  by (induction xs) (auto split: option.splits)

lemma aliases_foldl_reduceStep:
  "aliases (foldl reduceStep s pairs) = foldl spread (aliases s) (map fst pairs)"
  by (induction pairs arbitrary: s) (simp_all add: reduceStep_def split: prod.splits)

lemma aliases_reduceProperties:
  "aliases (reduceProperties names excluded pairs)
     = foldl spread [] (map fst (List.map_filter (\<lambda>pair. pair) pairs))"
  by (simp add: reduceProperties_def aliases_foldl_reduceStep)

text \<open>
  C1: in a schema built by \<^verbatim>\<open>buildModuleSchema\<close>, with a resolver that reaches one
  object type through one alias name, \<^verbatim>\<open>aliases\<close> are the alias maps of the members that
  were built, merged in the order of the members so that the first registration of a
  name wins; each name is there once. When the alias maps of two members register one
  name, the schema has the annotation registered by the earlier member. The \<^verbatim>\<open>reduce\<close>
  spreads the later map over what was merged so far, which assigns the later entry to
  the name: the entry it assigns is the annotation that was there, since the members of
  one run register the same annotation under a name.
\<close>

theorem first_registration_of_an_alias_wins:
  assumes built: "buildModuleSchema n rs hasteModuleName tree tp errs = Some (Inr schema, errs')"
    and resolver: "aliasConsistent rs (astTypes tree)"
  shows "\<exists>moduleSpec errs0 pairs.
           filterModuleInterfaces (map snd (astTypes tree)) = Inr [moduleSpec]
         \<and> buildProperties n rs (filter isSignature (body moduleSpec)) (astTypes tree) tp
               (nativeOnlyFor (moduleNames schema @ [hasteModuleName])) errs0
             = Some (Inr pairs, errs')
         \<and> aliases schema = foldl spread [] (map fst (List.map_filter (\<lambda>pair. pair) pairs))
         \<and> aliases schema
             = foldl mergeFirstWins [] (map fst (List.map_filter (\<lambda>pair. pair) pairs))
         \<and> distinct (map fst (aliases schema))
         \<and> (\<forall>before am shape after am' shape' name earlier later.
               pairs = before @ Some (am, shape) # after
               \<and> Some (am', shape') \<in> set after
               \<and> map_of am name = Some earlier
               \<and> map_of am' name = Some later
               \<longrightarrow> map_of (aliases schema) name = Some earlier \<and> later = earlier)"
proof -
  from buildModuleSchema_Inr [OF built]
  obtain moduleSpec moduleName and st' :: pstate and pairs where
    ms: "filterModuleInterfaces (map snd (astTypes tree)) = Inr [moduleSpec]" and
    bp: "buildProperties n rs (filter isSignature (body moduleSpec)) (astTypes tree) tp
           (nativeOnlyFor ((case moduleName of None \<Rightarrow> [] | Some m \<Rightarrow> [m]) @ [hasteModuleName]))
           (errors st') = Some (Inr pairs, errs')"
    and sc: "schema = reduceProperties (case moduleName of None \<Rightarrow> [] | Some m \<Rightarrow> [m])
               (concat (map excludedFor
                  ((case moduleName of None \<Rightarrow> [] | Some m \<Rightarrow> [m]) @ [hasteModuleName])))
               pairs"
    by blast
  let ?cxxOnly = "nativeOnlyFor ((case moduleName of None \<Rightarrow> [] | Some m \<Rightarrow> [m]) @ [hasteModuleName])"
  let ?ams = "map fst (List.map_filter (\<lambda>pair. pair) pairs)"
  have names: "moduleNames schema = (case moduleName of None \<Rightarrow> [] | Some m \<Rightarrow> [m])"
    unfolding sc by (rule reduceProperties_names)
  have al: "aliases schema = foldl spread [] ?ams"
    unfolding sc by (rule aliases_reduceProperties)
  have each: "registered rs (astTypes tree) tp ?cxxOnly am" if "Some (am, shape) \<in> set pairs"
    for am shape
    using bp that by (rule buildProperties_registered)
  have all: "\<forall>am \<in> set ?ams. registered rs (astTypes tree) tp ?cxxOnly am"
    using each by (auto simp: set_map_filter_id)
  from foldl_spread_mergeFirstWins [OF resolver registered_Nil all]
  have merge: "foldl spread [] ?ams = foldl mergeFirstWins [] ?ams"
    and reg: "registered rs (astTypes tree) tp ?cxxOnly (foldl spread [] ?ams)"
    by blast+
  have keys: "distinct (map fst (aliases schema))"
    using reg al by (simp add: registered_def)
  have first: "map_of (aliases schema) name = Some earlier \<and> later = earlier"
    if pairs: "pairs = before @ Some (am, shape) # after"
      and after: "Some (am', shape') \<in> set after"
      and earlier: "map_of am name = Some earlier"
      and later: "map_of am' name = Some later"
    for before am shape after am' shape' name earlier later
  proof -
    have "registered rs (astTypes tree) tp ?cxxOnly am"
      using pairs by (intro each [of am shape]) simp
    then have e: "registers rs (astTypes tree) tp ?cxxOnly name earlier"
      using map_of_SomeD [OF earlier] by (auto simp: registered_def)
    have "registered rs (astTypes tree) tp ?cxxOnly am'"
      using pairs after by (intro each [of am' shape']) simp
    then have l: "registers rs (astTypes tree) tp ?cxxOnly name later"
      using map_of_SomeD [OF later] by (auto simp: registered_def)
    have same: "later = earlier"
      using resolver l e by (rule registers_same)
    have "am \<in> set ?ams"
      using pairs by (force simp: set_map_filter_id)
    moreover have "name \<in> fst ` set am"
      using map_of_SomeD [OF earlier] by force
    ultimately have "name \<in> fst ` set (aliases schema)"
      unfolding al keys_foldl_spread by blast
    then obtain kept where kept: "(name, kept) \<in> set (aliases schema)" by auto
    then have "registers rs (astTypes tree) tp ?cxxOnly name kept"
      using reg al by (auto simp: registered_def)
    with resolver have "kept = earlier" using e by (rule registers_same)
    then have "map_of (aliases schema) name = Some earlier"
      using kept keys by simp
    then show ?thesis using same by simp
  qed
  show ?thesis
    using ms bp al merge keys first unfolding names [symmetric]
    by (intro exI [of _ moduleSpec] exI [of _ "errors st'"] exI [of _ pairs]) (simp, blast)
qed

theorem first_registration_of_an_alias_wins_witness:
  "buildModuleSchema 3 (resolveTypeAnnotation 2) ''NativeFoo''
     \<lparr>astTypes =
        [(''Spec'', specInterface
            [TSMethodSignature ''f'' False
               [TSParam ''a'' False (Some (TSTypeReference ''A'' None))] (Some TSVoidKeyword),
             TSMethodSignature ''g'' False
               [TSParam ''b'' False
                  (Some (TSTypeReference ''Array'' (Some [TSTypeReference ''A'' None])))]
               (Some TSVoidKeyword)]),
         (''A'', TSTypeAliasDeclaration
            (TSTypeLiteral [TSPropertySignature ''x'' False (Some TSNumberKeyword)]))],
      astRegistryCalls = [registryCall ''Foo'']\<rparr>
     ErrorCapturer []
   = Some (Inr \<lparr>aliases =
                  [(''A'', ObjectTypeAnnotation
                      [NamedShape ''x'' False (Nullable False NumberTypeAnnotation)])],
                properties =
                  [NamedShape ''f'' False
                     (Nullable False
                        (FunctionTypeAnnotation (Nullable False VoidTypeAnnotation)
                           [NamedShape ''a'' False (Nullable False (TypeAliasTypeAnnotation ''A''))])),
                   NamedShape ''g'' False
                     (Nullable False
                        (FunctionTypeAnnotation (Nullable False VoidTypeAnnotation)
                           [NamedShape ''b'' False
                              (Nullable False
                                 (ArrayTypeAnnotation
                                    (Some (Nullable False (TypeAliasTypeAnnotation ''A'')))))]))],
                moduleNames = [''Foo''], excludedPlatforms = None\<rparr>,
           [])
   \<and> map_of [(''A'', ObjectTypeAnnotation
                [NamedShape ''x'' False (Nullable False NumberTypeAnnotation)])] ''A''
       = Some (ObjectTypeAnnotation [NamedShape ''x'' False (Nullable False NumberTypeAnnotation)])"
proof -
  let ?f = "TSMethodSignature ''f'' False
               [TSParam ''a'' False (Some (TSTypeReference ''A'' None))] (Some TSVoidKeyword)"
  let ?g = "TSMethodSignature ''g'' False
               [TSParam ''b'' False
                  (Some (TSTypeReference ''Array'' (Some [TSTypeReference ''A'' None])))]
               (Some TSVoidKeyword)"
  let ?types = "[(''Spec'', specInterface [?f, ?g]),
         (''A'', TSTypeAliasDeclaration
            (TSTypeLiteral [TSPropertySignature ''x'' False (Some TSNumberKeyword)]))]"
  let ?tree = "\<lparr>astTypes = ?types, astRegistryCalls = [registryCall ''Foo'']\<rparr>"
  let ?obj = "ObjectTypeAnnotation [NamedShape ''x'' False (Nullable False NumberTypeAnnotation)]"
  let ?fs = "NamedShape ''f'' False
                     (Nullable False
                        (FunctionTypeAnnotation (Nullable False VoidTypeAnnotation)
                           [NamedShape ''a'' False (Nullable False (TypeAliasTypeAnnotation ''A''))]))"
  let ?gs = "NamedShape ''g'' False
                     (Nullable False
                        (FunctionTypeAnnotation (Nullable False VoidTypeAnnotation)
                           [NamedShape ''b'' False
                              (Nullable False
                                 (ArrayTypeAnnotation
                                    (Some (Nullable False (TypeAliasTypeAnnotation ''A'')))))]))"
  let ?schema = "\<lparr>aliases = [(''A'', ?obj)], properties = [?fs, ?gs],
                  moduleNames = [''Foo''], excludedPlatforms = None\<rparr>"
  have bp: "buildProperties 3 (resolveTypeAnnotation 2) [?f, ?g] ?types ErrorCapturer False errs0
              = Some (Inr [Some ([(''A'', ?obj)], ?fs), Some ([(''A'', ?obj)], ?gs)], errs0)"
    for errs0
    by (simp add: buildPropertySchema_def numeral_2_eq_2 numeral_3_eq_3 resolveTypeAnnotation_def
          specInterface_def emitVoid_def emitNumber_def wrapNullable_def unwrapNullable_def
          paramOf_def functionOf_def objectPropertyOf_def isFunctionTypeAnnotation_def
          arrayOfElement_def assertGenericTypeAnnotationHasExactlyOneTypeParameter_def
          typeAliasResolution_def settle_def tryParse_def)
  have built: "buildModuleSchema 3 (resolveTypeAnnotation 2) ''NativeFoo'' ?tree ErrorCapturer []
                 = Some (Inr ?schema, [])"
    unfolding buildModuleSchema_def
    by (simp add: bp [unfolded specInterface_def] Let_def specInterface_def registryCall_def
          isModuleInterface_def idName_def body_def
          parseModuleName_def settle_def tryParse_def validateNames_eq nativeOnlyFor_def
          excludedFor_def endsWith_simps reduceProperties_def reduceStep_def spread_def
          List.map_filter_def isSignature_def del: buildProperties.simps)
  from first_registration_of_an_alias_wins [OF built aliasConsistent_resolveTypeAnnotation]
  obtain moduleSpec errs0 pairs where
    ms: "filterModuleInterfaces (map snd (astTypes ?tree)) = Inr [moduleSpec]"
    and run: "buildProperties 3 (resolveTypeAnnotation 2) (filter isSignature (body moduleSpec))
                (astTypes ?tree) ErrorCapturer
                (nativeOnlyFor (moduleNames ?schema @ [''NativeFoo''])) errs0
              = Some (Inr pairs, [])"
    and first: "\<forall>before am shape after am' shape' name earlier later.
               pairs = before @ Some (am, shape) # after
               \<and> Some (am', shape') \<in> set after
               \<and> map_of am name = Some earlier
               \<and> map_of am' name = Some later
               \<longrightarrow> map_of (aliases ?schema) name = Some earlier \<and> later = earlier"
    by blast
  have "moduleSpec = specInterface [?f, ?g]"
    using ms by (simp add: specInterface_def isModuleInterface_def)
  then have "pairs = [Some ([(''A'', ?obj)], ?fs), Some ([(''A'', ?obj)], ?gs)]"
    using run bp [of errs0, unfolded specInterface_def]
    by (simp add: specInterface_def body_def isSignature_def nativeOnlyFor_def endsWith_simps
          del: buildProperties.simps)
  then have "map_of (aliases ?schema) ''A'' = Some ?obj"
    using first [rule_format, of "[]" "[(''A'', ?obj)]" ?fs "[Some ([(''A'', ?obj)], ?gs)]"
                  "[(''A'', ?obj)]" ?gs "''A''" ?obj ?obj]
    by simp
  then show ?thesis
    using built by simp
qed

end
